theory Spec2Isabelle
  imports Complex_Main
begin

section \<open>Python values used by the pipeline\<close>

text \<open>
  A Python \<^verbatim>\<open>str\<close> is a sequence of Unicode code points, so it is modelled as a list
  of natural numbers (\<^verbatim>\<open>len\<close> is \<open>length\<close>, one unit per code point). ASCII text is
  written through \<open>ascii\<close>; the rupee sign U+20B9 is the code point 8377.

  Case mapping, digits, word characters and white space are modelled on the ASCII range:
  a code point above 127 is taken to be a caseless character that is neither a digit, nor
  a word character, nor white space. That is what Python does for the rupee sign and for
  punctuation; Python's own tables also treat some non-ASCII code points as digits or as
  cased letters, and those inputs are outside this model.

  A cell of a pandas table that may be missing (\<^verbatim>\<open>None\<close>/\<^verbatim>\<open>NaN\<close>, what \<^verbatim>\<open>pd.isna\<close>
  detects) is an \<open>option\<close>. A Python \<^verbatim>\<open>float\<close> that is not \<^verbatim>\<open>NaN\<close> is modelled by the
  rational number it stands for: comparisons are exact, and the rounding of IEEE
  arithmetic is not modelled (the values in the examples below are exact doubles).
\<close>

type_synonym pystr = "nat list"

definition ascii :: "string \<Rightarrow> pystr" where
  "ascii = map of_char"

definition rupee :: nat where
  "rupee = 8377"

definition is_digit :: "nat \<Rightarrow> bool" where
  "is_digit c = (48 \<le> c \<and> c \<le> 57)"

definition lower_cp :: "nat \<Rightarrow> nat" where
  "lower_cp c = (if 65 \<le> c \<and> c \<le> 90 then c + 32 else c)"

text \<open>\<^verbatim>\<open>s.lower()\<close>\<close>

definition lower :: "pystr \<Rightarrow> pystr" where
  "lower s = map lower_cp s"

fun starts_with :: "pystr \<Rightarrow> pystr \<Rightarrow> bool" where
  "starts_with s [] = True"
| "starts_with [] (p # ps) = False"
| "starts_with (c # cs) (p # ps) = (c = p \<and> starts_with cs ps)"

text \<open>\<^verbatim>\<open>sub in s\<close>: \<open>sub\<close> occurs in \<open>s\<close> as a contiguous run.\<close>

fun contains :: "pystr \<Rightarrow> pystr \<Rightarrow> bool" where
  "contains [] sub = (sub = [])"
| "contains (c # cs) sub = (starts_with (c # cs) sub \<or> contains cs sub)"

section \<open>Price normalizer (\<^verbatim>\<open>DataProcessor.clean_price\<close>)\<close>

text \<open>
  The price cell is a text or missing; a cell that holds a number is not modelled.

  \<^verbatim>\<open>numbers = re.findall(r'\d+\.?\d*', price_str)\<close>: only \<^verbatim>\<open>numbers[0]\<close> and the
  emptiness of the list are used. The leftmost match starts at the first digit; each of
  the three parts of the pattern is greedy and nothing after them can fail, so the match
  is the longest digit run, a dot if one follows, and the longest digit run after it.
  \<open>first_number\<close> returns the two digit runs and whether the dot was matched, or \<open>None\<close>
  when the text has no digit (the list is empty).
\<close>

definition first_number :: "pystr \<Rightarrow> (pystr \<times> bool \<times> pystr) option" where
  "first_number s =
     (let r = dropWhile (\<lambda>c. \<not> is_digit c) s in
      if r = [] then None
      else
        let ipart = takeWhile is_digit r; r1 = dropWhile is_digit r in
        (case r1 of
           [] \<Rightarrow> Some (ipart, False, [])
         | c # r2 \<Rightarrow>
             if c = 46 then Some (ipart, True, takeWhile is_digit r2)
             else Some (ipart, False, [])))"

text \<open>The text of the match, as \<^verbatim>\<open>re.findall\<close> returns it.\<close>

definition number_text :: "pystr \<times> bool \<times> pystr \<Rightarrow> pystr" where
  "number_text m = (case m of (ipart, dot, fpart) \<Rightarrow> ipart @ (if dot then [46] else []) @ fpart)"

text \<open>The number that a run of decimal digits writes.\<close>

definition digits_value :: "pystr \<Rightarrow> rat" where
  "digits_value ds = foldl (\<lambda>n c. 10 * n + of_nat (c - 48)) 0 ds"

text \<open>\<^verbatim>\<open>float(numbers[0])\<close>: the decimal value of the matched text.\<close>

definition py_float :: "pystr \<times> bool \<times> pystr \<Rightarrow> rat" where
  "py_float m =
     (case m of (ipart, dot, fpart) \<Rightarrow>
        digits_value ipart + digits_value fpart / 10 ^ length fpart)"

definition price_not_available :: pystr where
  "price_not_available = ascii ''Price not available''"

definition clean_price :: "pystr option \<Rightarrow> rat option" where
  "clean_price price_text =
     (case price_text of
        None \<Rightarrow> None
      | Some price_str \<Rightarrow>
          if price_str = price_not_available then None
          else
            (case first_number price_str of
               None \<Rightarrow> None
             | Some m \<Rightarrow>
                 let price = py_float m in
                 if contains (lower price_str) (ascii ''lakh'') then Some (price * 100000)
                 else if contains (lower price_str) (ascii ''crore'') then Some (price * 10000000)
                 else if contains (lower price_str) (ascii ''k'') then Some (price * 1000)
                 else Some price))"

section \<open>Price categories (\<^verbatim>\<open>DataProcessor.categorize_price\<close>)\<close>

definition unknown :: pystr where
  "unknown = ascii ''Unknown''"

definition budget_label :: pystr where
  "budget_label = ascii ''Budget (< '' @ [rupee] @ ascii ''1K)''"

definition low_label :: pystr where
  "low_label = ascii ''Low ('' @ [rupee] @ ascii ''1K-10K)''"

definition medium_label :: pystr where
  "medium_label = ascii ''Medium ('' @ [rupee] @ ascii ''10K-50K)''"

definition high_label :: pystr where
  "high_label = ascii ''High ('' @ [rupee] @ ascii ''50K-1L)''"

definition premium_label :: pystr where
  "premium_label = ascii ''Premium (> '' @ [rupee] @ ascii ''1L)''"

definition categorize_price :: "rat option \<Rightarrow> pystr" where
  "categorize_price price =
     (case price of
        None \<Rightarrow> unknown
      | Some p \<Rightarrow>
          if p < 1000 then budget_label
          else if p < 10000 then low_label
          else if p < 50000 then medium_label
          else if p < 100000 then high_label
          else premium_label)"

section \<open>Location normalizer (\<^verbatim>\<open>clean_location\<close>, \<^verbatim>\<open>extract_state\<close>)\<close>

text \<open>White space as \<^verbatim>\<open>str.isspace\<close>, \<^verbatim>\<open>str.strip\<close>, \<^verbatim>\<open>str.split\<close> and \<^verbatim>\<open>\s\<close> see it in ASCII.\<close>

definition is_space :: "nat \<Rightarrow> bool" where
  "is_space c = ((9 \<le> c \<and> c \<le> 13) \<or> (28 \<le> c \<and> c \<le> 32))"

definition is_upper :: "nat \<Rightarrow> bool" where
  "is_upper c = (65 \<le> c \<and> c \<le> 90)"

definition is_lower :: "nat \<Rightarrow> bool" where
  "is_lower c = (97 \<le> c \<and> c \<le> 122)"

definition is_cased :: "nat \<Rightarrow> bool" where
  "is_cased c = (is_upper c \<or> is_lower c)"

definition upper_cp :: "nat \<Rightarrow> nat" where
  "upper_cp c = (if is_lower c then c - 32 else c)"

text \<open>\<^verbatim>\<open>s.strip()\<close>\<close>

definition strip :: "pystr \<Rightarrow> pystr" where
  "strip s = rev (dropWhile is_space (rev (dropWhile is_space s)))"

text \<open>
  \<^verbatim>\<open>s.title()\<close>: a cased character is upper-cased when the character before it is not
  cased, and lower-cased otherwise. The flag is \<^verbatim>\<open>previous_is_cased\<close>.
\<close>

fun title_from :: "bool \<Rightarrow> pystr \<Rightarrow> pystr" where
  "title_from previous_is_cased [] = []"
| "title_from previous_is_cased (c # cs) =
     (if previous_is_cased then lower_cp c else upper_cp c) # title_from (is_cased c) cs"

definition title :: "pystr \<Rightarrow> pystr" where
  "title s = title_from False s"

text \<open>\<^verbatim>\<open>re.sub(r'\s+', ' ', s)\<close>: every maximal run of white space becomes one space;
  \<open>in_run\<close> says that the code point before was white space.\<close>

fun collapse_from :: "bool \<Rightarrow> pystr \<Rightarrow> pystr" where
  "collapse_from in_run [] = []"
| "collapse_from in_run (c # cs) =
     (if is_space c then (if in_run then collapse_from True cs else 32 # collapse_from True cs)
      else c # collapse_from False cs)"

definition collapse_spaces :: "pystr \<Rightarrow> pystr" where
  "collapse_spaces s = collapse_from False s"

definition location_not_available :: pystr where
  "location_not_available = ascii ''Location not available''"

definition clean_location :: "pystr option \<Rightarrow> pystr" where
  "clean_location location =
     (case location of
        None \<Rightarrow> unknown
      | Some l \<Rightarrow>
          if l = location_not_available then unknown
          else title (strip (collapse_spaces l)))"

text \<open>
  \<^verbatim>\<open>s.split(sep)\<close> for a one-character separator; \<open>cur\<close> is the segment being read.
  The result always has at least one segment.
\<close>

fun split_acc :: "nat \<Rightarrow> pystr \<Rightarrow> pystr \<Rightarrow> pystr list" where
  "split_acc sep cur [] = [cur]"
| "split_acc sep cur (c # cs) =
     (if c = sep then cur # split_acc sep [] cs else split_acc sep (cur @ [c]) cs)"

definition split :: "nat \<Rightarrow> pystr \<Rightarrow> pystr list" where
  "split sep s = split_acc sep [] s"

definition states :: "pystr list" where
  "states =
     [ascii ''Maharashtra'', ascii ''Gujarat'', ascii ''Delhi'', ascii ''Tamil Nadu'',
      ascii ''Karnataka'', ascii ''Uttar Pradesh'', ascii ''West Bengal'',
      ascii ''Rajasthan'', ascii ''Haryana'', ascii ''Telangana'',
      ascii ''Andhra Pradesh'', ascii ''Punjab'', ascii ''Madhya Pradesh'']"

text \<open>
  The loop \<^verbatim>\<open>for state in states\<close>: the first state whose lower-cased name occurs in the
  lower-cased location, \<open>None\<close> when the loop ends without a \<^verbatim>\<open>return\<close>.
\<close>

definition find_state :: "pystr \<Rightarrow> pystr option" where
  "find_state location = find (\<lambda>state. contains (lower location) (lower state)) states"

definition extract_state :: "pystr \<Rightarrow> pystr" where
  "extract_state location =
     (if location = unknown then unknown
      else
        (case find_state location of
           Some state \<Rightarrow> state
         | None \<Rightarrow>
             let parts = split 44 location in
             if parts \<noteq> [] then strip (last parts) else unknown))"

section \<open>Company normalizer (\<^verbatim>\<open>clean_company_name\<close>)\<close>

text \<open>\<^verbatim>\<open>\w\<close> in ASCII: letters, digits and the underscore.\<close>

definition is_word :: "nat \<Rightarrow> bool" where
  "is_word c = (is_digit c \<or> is_cased c \<or> c = 95)"

text \<open>
  \<^verbatim>\<open>\b\<close> between two neighbouring positions of the text, each \<open>None\<close> at an end of the
  text: exactly one side is a word character.
\<close>

definition word_boundary :: "nat option \<Rightarrow> nat option \<Rightarrow> bool" where
  "word_boundary prev nxt =
     ((case prev of None \<Rightarrow> False | Some c \<Rightarrow> is_word c)
      \<noteq> (case nxt of None \<Rightarrow> False | Some c \<Rightarrow> is_word c))"

definition head_opt :: "pystr \<Rightarrow> nat option" where
  "head_opt s = (case s of [] \<Rightarrow> None | c # _ \<Rightarrow> Some c)"

text \<open>
  One attempt of the pattern \<^verbatim>\<open>\b{suffix}\b\.?\<close> (with \<^verbatim>\<open>re.IGNORECASE\<close>) at the
  start of \<open>s\<close>, the code point before it being \<open>prev\<close>: the number of code points the
  match consumes, or \<open>None\<close> when there is no match here. The optional dot is greedy.
\<close>

definition match_suffix :: "pystr \<Rightarrow> nat option \<Rightarrow> pystr \<Rightarrow> nat option" where
  "match_suffix suffix prev s =
     (let n = length suffix; rest = drop n s in
      if word_boundary prev (head_opt s)
         \<and> n \<le> length s \<and> lower (take n s) = lower suffix
         \<and> word_boundary (if n = 0 then prev else Some (last (take n s))) (head_opt rest)
      then (if head_opt rest = Some 46 then Some (n + 1) else Some n)
      else None)"

text \<open>
  \<^verbatim>\<open>re.sub(pattern, '', company)\<close>: scan from the left; where the pattern matches, the
  matched code points are deleted and the scan goes on behind them; elsewhere the code
  point is kept. \<open>skip\<close> counts the code points of the current match still to delete.
\<close>

fun remove_suffix :: "pystr \<Rightarrow> nat \<Rightarrow> nat option \<Rightarrow> pystr \<Rightarrow> pystr" where
  "remove_suffix suffix skip prev [] = []"
| "remove_suffix suffix (Suc k) prev (c # cs) = remove_suffix suffix k (Some c) cs"
| "remove_suffix suffix 0 prev (c # cs) =
     (case match_suffix suffix prev (c # cs) of
        Some (Suc k) \<Rightarrow> remove_suffix suffix k (Some c) cs
      | _ \<Rightarrow> c # remove_suffix suffix 0 (Some c) cs)"

definition suffixes :: "pystr list" where
  "suffixes =
     [ascii ''Pvt Ltd'', ascii ''Private Limited'', ascii ''Ltd'', ascii ''Inc'',
      ascii ''Corporation'', ascii ''Corp'']"

definition clean_company_name :: "pystr option \<Rightarrow> pystr" where
  "clean_company_name company =
     (case company of
        None \<Rightarrow> unknown
      | Some c \<Rightarrow>
          if c = unknown then unknown
          else
            title (strip (foldl (\<lambda>company suffix. remove_suffix suffix 0 None company)
                                (strip c) suffixes)))"

section \<open>Keyword extractor (\<^verbatim>\<open>extract_keywords\<close>)\<close>

text \<open>\<^verbatim>\<open>s.split()\<close>: the maximal runs of characters that are not white space.\<close>

fun words_acc :: "pystr \<Rightarrow> pystr \<Rightarrow> pystr list" where
  "words_acc cur [] = (if cur = [] then [] else [cur])"
| "words_acc cur (c # cs) =
     (if is_space c then (if cur = [] then words_acc [] cs else cur # words_acc [] cs)
      else words_acc (cur @ [c]) cs)"

definition split_words :: "pystr \<Rightarrow> pystr list" where
  "split_words s = words_acc [] s"

definition stop_words :: "pystr list" where
  "stop_words =
     [ascii ''and'', ascii ''or'', ascii ''the'', ascii ''a'', ascii ''an'', ascii ''in'',
      ascii ''on'', ascii ''at'', ascii ''for'', ascii ''with'', ascii ''from'', ascii ''to'']"

definition extract_keywords :: "pystr option \<Rightarrow> pystr list" where
  "extract_keywords product_name =
     (case product_name of
        None \<Rightarrow> []
      | Some n \<Rightarrow>
          take 5 (filter (\<lambda>word. \<not> List.member stop_words word \<and> 2 < length word)
                         (split_words (lower n))))"

section \<open>The table and its cleaning (\<^verbatim>\<open>DataProcessor.clean_data\<close>)\<close>

text \<open>
  A row of the table loaded from the raw file: the columns written by the scraper. Every
  cell may be missing. The table is the list of its rows in row order.
\<close>

record raw_record =
  name :: "pystr option"
  price :: "pystr option"
  price_numeric :: "rat option"
  company :: "pystr option"
  location :: "pystr option"
  category :: "pystr option"
  rating :: "pystr option"
  url :: "pystr option"
  scraped_at :: "pystr option"
  source :: "pystr option"

text \<open>A row after \<^verbatim>\<open>clean_data\<close>: the raw columns and the six derived ones.\<close>

record clean_record = raw_record +
  price_cleaned :: "rat option"
  location_cleaned :: pystr
  state :: pystr
  company_cleaned :: pystr
  price_category :: pystr
  product_keywords :: "pystr list"

text \<open>
  \<^verbatim>\<open>df.drop_duplicates(subset=['name', 'company'], keep='first')\<close>: a row is dropped when
  an earlier row has the same cells in both columns (pandas takes two missing cells for
  equal). \<open>seen\<close> holds the keys of the rows read so far. The functions work on raw and
  on cleaned rows alike.
\<close>

definition dedup_key :: "'a raw_record_scheme \<Rightarrow> pystr option \<times> pystr option" where
  "dedup_key r = (name r, company r)"

fun drop_duplicates_from ::
  "(pystr option \<times> pystr option) set \<Rightarrow> 'a raw_record_scheme list \<Rightarrow> 'a raw_record_scheme list" where
  "drop_duplicates_from seen [] = []"
| "drop_duplicates_from seen (r # rs) =
     (if dedup_key r \<in> seen then drop_duplicates_from seen rs
      else r # drop_duplicates_from (insert (dedup_key r) seen) rs)"

definition drop_duplicates :: "'a raw_record_scheme list \<Rightarrow> 'a raw_record_scheme list" where
  "drop_duplicates df = drop_duplicates_from {} df"

text \<open>\<^verbatim>\<open>df.dropna(subset=['name'])\<close>\<close>

definition dropna_name :: "'a raw_record_scheme list \<Rightarrow> 'a raw_record_scheme list" where
  "dropna_name df = filter (\<lambda>r. name r \<noteq> None) df"

text \<open>Steps 3 to 7 of \<^verbatim>\<open>clean_data\<close> on one row: each adds a column.\<close>

definition add_columns :: "raw_record \<Rightarrow> clean_record" where
  "add_columns r =
     \<lparr>name = name r, price = price r, price_numeric = price_numeric r, company = company r,
      location = location r, category = category r, rating = rating r, url = url r,
      scraped_at = scraped_at r, source = source r,
      price_cleaned = clean_price (price r),
      location_cleaned = clean_location (location r),
      state = extract_state (clean_location (location r)),
      company_cleaned = clean_company_name (company r),
      price_category = categorize_price (clean_price (price r)),
      product_keywords = extract_keywords (name r)\<rparr>"

definition clean_data :: "raw_record list \<Rightarrow> clean_record list" where
  "clean_data df = map add_columns (dropna_name (drop_duplicates df))"

text \<open>The other pass order: the columns are added to every row, then rows are dropped.\<close>

definition clean_data_columns_first :: "raw_record list \<Rightarrow> clean_record list" where
  "clean_data_columns_first df = dropna_name (drop_duplicates (map add_columns df))"

section \<open>Quality score (\<^verbatim>\<open>DataProcessor.calculate_quality_score\<close>)\<close>

text \<open>\<^verbatim>\<open>cond.astype(int)\<close>\<close>

definition as_int :: "bool \<Rightarrow> int" where
  "as_int b = (if b then 1 else 0)"

text \<open>The score of one row: the five column-wise additions of the source, read at a row.\<close>

definition quality_score :: "'a clean_record_scheme \<Rightarrow> int" where
  "quality_score r =
     0 + as_int (name r \<noteq> None) * 30
       + as_int (price_cleaned r \<noteq> None) * 25
       + as_int (company r \<noteq> Some unknown) * 20
       + as_int (location_cleaned r \<noteq> unknown) * 15
       + as_int (url r \<noteq> None) * 10"

definition calculate_quality_score :: "'a clean_record_scheme list \<Rightarrow> int list" where
  "calculate_quality_score df = map quality_score df"

section \<open>Record extractor (\<^verbatim>\<open>MultiSourceScraper.extract_products\<close>)\<close>

text \<open>
  The parsed document is read through \<^verbatim>\<open>soup.find_all('a', href=True)\<close>: the anchors
  that carry an \<^verbatim>\<open>href\<close>, in document order. Of an anchor the extractor reads the
  \<^verbatim>\<open>title\<close> attribute, \<^verbatim>\<open>get_text(strip=True)\<close>, the \<^verbatim>\<open>href\<close> and the text nodes
  below its parent (\<open>None\<close> when it has no parent), in document order.
\<close>

record anchor =
  title_attr :: "pystr option"
  text_stripped :: pystr
  href :: pystr
  parent_strings :: "pystr list option"

text \<open>
  What the scraper cannot decide itself: the outcome of the \<open>n\<close>-th request of the
  session, and the reading of the clock when the \<open>n\<close>-th product is built.
\<close>

datatype page = Unparsable | Page "anchor list"

datatype outcome = Raised | Response int page

record world =
  respond :: "nat \<Rightarrow> pystr \<Rightarrow> outcome"
  clock :: "nat \<Rightarrow> pystr"

record scraper =
  products :: "raw_record list"
  requests :: nat

text \<open>\<^verbatim>\<open>link.get('title') or link.get_text(strip=True)\<close>\<close>

definition link_name :: "anchor \<Rightarrow> pystr" where
  "link_name link =
     (case title_attr link of
        None \<Rightarrow> text_stripped link
      | Some t \<Rightarrow> if t \<noteq> [] then t else text_stripped link)"

definition noise_words :: "pystr list" where
  "noise_words =
     [ascii ''home'', ascii ''about'', ascii ''contact'', ascii ''login'',
      ascii ''category'', ascii ''more'']"

text \<open>\<^verbatim>\<open>any(skip in name.lower() for skip in [...])\<close>\<close>

definition is_navigation :: "pystr \<Rightarrow> bool" where
  "is_navigation nm = list_ex (\<lambda>skip. contains (lower nm) skip) noise_words"

text \<open>A search of \<^verbatim>\<open>re.compile(r'[rupee sign]|Rs|INR|Price', re.I)\<close> in a text node.\<close>

definition price_pattern :: "pystr \<Rightarrow> bool" where
  "price_pattern s =
     (contains s [rupee] \<or> contains (lower s) (ascii ''rs'')
      \<or> contains (lower s) (ascii ''inr'') \<or> contains (lower s) (ascii ''price''))"

text \<open>
  \<^verbatim>\<open>numbers[0]\<close> of \<^verbatim>\<open>re.findall(r'[\d,]+', price_text)\<close>: the first maximal run of
  digits and commas, \<open>None\<close> when there is none.
\<close>

definition first_grouped_number :: "pystr \<Rightarrow> pystr option" where
  "first_grouped_number s =
     (let r = dropWhile (\<lambda>c. \<not> (is_digit c \<or> c = 44)) s in
      if r = [] then None else Some (takeWhile (\<lambda>c. is_digit c \<or> c = 44) r))"

text \<open>
  \<^verbatim>\<open>float(numbers[0].replace(',', ''))\<close> under the inner \<^verbatim>\<open>try\<close>: a run of commas
  alone leaves the empty text, on which \<^verbatim>\<open>float\<close> raises and the price stays \<^verbatim>\<open>None\<close>.
\<close>

definition parse_grouped :: "pystr \<Rightarrow> rat option" where
  "parse_grouped s =
     (case first_grouped_number s of
        None \<Rightarrow> None
      | Some run \<Rightarrow>
          let digits = filter (\<lambda>c. c \<noteq> 44) run in
          if digits = [] then None else Some (digits_value digits))"

text \<open>The price found near a link: \<^verbatim>\<open>(price_text, price_numeric)\<close>.\<close>

definition nearby_price :: "anchor \<Rightarrow> pystr \<times> rat option" where
  "nearby_price link =
     (case parent_strings link of
        None \<Rightarrow> (ascii ''Price on Request'', None)
      | Some strings \<Rightarrow>
          (case find price_pattern strings of
             None \<Rightarrow> (ascii ''Price on Request'', None)
           | Some price_elem \<Rightarrow> (strip price_elem, parse_grouped (strip price_elem))))"

definition make_product :: "pystr \<Rightarrow> pystr \<Rightarrow> pystr \<Rightarrow> anchor \<Rightarrow> pystr \<Rightarrow> raw_record" where
  "make_product now cat source_name link nm =
     \<lparr>name = Some nm, price = Some (fst (nearby_price link)),
      price_numeric = snd (nearby_price link),
      company = Some (ascii ''To be updated''), location = Some (ascii ''India''),
      category = Some cat, rating = None, url = Some (href link),
      scraped_at = Some now, source = Some source_name\<rparr>"

text \<open>
  The loop over \<^verbatim>\<open>all_links\<close>, with its locals \<^verbatim>\<open>count\<close> and \<^verbatim>\<open>seen\<close> and the list
  \<^verbatim>\<open>self.products\<close>. The first test is the \<^verbatim>\<open>break\<close>, the navigation test is the
  \<^verbatim>\<open>continue\<close>. Nothing in the body raises, so the \<^verbatim>\<open>except\<close> branch is not taken.
\<close>

fun extract_loop ::
  "(nat \<Rightarrow> pystr) \<Rightarrow> pystr \<Rightarrow> pystr \<Rightarrow> int \<Rightarrow> anchor list \<Rightarrow> int \<Rightarrow> pystr set
     \<Rightarrow> raw_record list \<Rightarrow> int \<times> raw_record list" where
  "extract_loop clk cat source_name max_results [] count seen prods = (count, prods)"
| "extract_loop clk cat source_name max_results (link # links) count seen prods =
     (if count \<ge> max_results then (count, prods)
      else
        let nm = link_name link in
        if nm \<noteq> [] \<and> 10 < length nm \<and> length nm < 200 \<and> nm \<notin> seen then
          if is_navigation nm then
            extract_loop clk cat source_name max_results links count seen prods
          else
            extract_loop clk cat source_name max_results links (count + 1) (insert nm seen)
              (prods @ [make_product (clk (length prods)) cat source_name link nm])
        else extract_loop clk cat source_name max_results links count seen prods)"

definition extract_products ::
  "world \<Rightarrow> anchor list \<Rightarrow> pystr \<Rightarrow> pystr \<Rightarrow> int \<Rightarrow> scraper \<Rightarrow> int \<times> scraper" where
  "extract_products w all_links cat source_name max_results s =
     (case extract_loop (clock w) cat source_name max_results all_links 0 {} (products s) of
        (count, prods) \<Rightarrow> (count, s\<lparr>products := prods\<rparr>))"

section \<open>Aggregator (\<^verbatim>\<open>scrape_source\<close>, \<^verbatim>\<open>scrape_category\<close>)\<close>

text \<open>
  An entry of \<^verbatim>\<open>self.sources\<close>; the search URL template is kept as the text before and
  the text after \<^verbatim>\<open>{query}\<close>.
\<close>

record source_info =
  display_name :: pystr
  base_url :: pystr
  search_prefix :: pystr
  search_suffix :: pystr
  status :: pystr

definition sources :: "(pystr \<times> source_info) list" where
  "sources =
     [(ascii ''tradeindia'',
       \<lparr>display_name = ascii ''TradeIndia'', base_url = ascii ''https://www.tradeindia.com'',
        search_prefix = ascii ''https://www.tradeindia.com/search.html?ss='',
        search_suffix = [], status = ascii ''active''\<rparr>),
      (ascii ''alibaba'',
       \<lparr>display_name = ascii ''Alibaba'', base_url = ascii ''https://www.alibaba.com'',
        search_prefix = ascii ''https://www.alibaba.com/trade/search?SearchText='',
        search_suffix = [], status = ascii ''active''\<rparr>),
      (ascii ''dhgate'',
       \<lparr>display_name = ascii ''DHgate'', base_url = ascii ''https://www.dhgate.com'',
        search_prefix = ascii ''https://www.dhgate.com/wholesale/'',
        search_suffix = ascii ''.html'', status = ascii ''active''\<rparr>),
      (ascii ''exportersindia'',
       \<lparr>display_name = ascii ''ExportersIndia'',
        base_url = ascii ''https://www.exportersindia.com'',
        search_prefix = ascii ''https://www.exportersindia.com/search.htm?keyword='',
        search_suffix = [], status = ascii ''testing''\<rparr>)]"

text \<open>\<^verbatim>\<open>source['search_url'].format(query=category.replace(' ', '+'))\<close>\<close>

definition search_url :: "source_info \<Rightarrow> pystr \<Rightarrow> pystr" where
  "search_url src cat =
     search_prefix src @ map (\<lambda>c. if c = 32 then 43 else c) cat @ search_suffix src"

text \<open>
  \<^verbatim>\<open>scrape_source\<close> returns the count and leaves the scraper changed. An unknown key
  returns before any request. Inside the \<^verbatim>\<open>try\<close>, an exception of the request or of
  the parser, and a status other than 200, give 0.
\<close>

definition scrape_source :: "world \<Rightarrow> pystr \<Rightarrow> pystr \<Rightarrow> int \<Rightarrow> scraper \<Rightarrow> int \<times> scraper" where
  "scrape_source w source_key cat max_results s =
     (case map_of sources source_key of
        None \<Rightarrow> (0, s)
      | Some src \<Rightarrow>
          let s1 = s\<lparr>requests := requests s + 1\<rparr> in
          (case respond w (requests s) (search_url src cat) of
             Raised \<Rightarrow> (0, s1)
           | Response status_code doc \<Rightarrow>
               if status_code = 200 then
                 (case doc of
                    Unparsable \<Rightarrow> (0, s1)
                  | Page all_links \<Rightarrow>
                      extract_products w all_links cat (display_name src) max_results s1)
               else (0, s1)))"

text \<open>The loop of \<^verbatim>\<open>scrape_category\<close> over the source keys, with its local \<^verbatim>\<open>total\<close> (here \<open>tot\<close>).\<close>

fun scrape_loop ::
  "world \<Rightarrow> pystr \<Rightarrow> int \<Rightarrow> pystr list \<Rightarrow> int \<Rightarrow> scraper \<Rightarrow> int \<times> scraper" where
  "scrape_loop w cat max_per_source [] tot s = (tot, s)"
| "scrape_loop w cat max_per_source (source_key # rest) tot s =
     (case scrape_source w source_key cat max_per_source s of
        (count, s') \<Rightarrow> scrape_loop w cat max_per_source rest (tot + count) s')"

definition scrape_category :: "world \<Rightarrow> pystr \<Rightarrow> pystr list \<Rightarrow> int \<Rightarrow> scraper \<Rightarrow> int \<times> scraper" where
  "scrape_category w cat source_keys max_per_source s =
     scrape_loop w cat max_per_source source_keys 0 s"

text \<open>The counts that the calls of \<^verbatim>\<open>scrape_source\<close> return, one per key, in order.\<close>

fun source_counts :: "world \<Rightarrow> pystr \<Rightarrow> int \<Rightarrow> pystr list \<Rightarrow> scraper \<Rightarrow> int list" where
  "source_counts w cat max_per_source [] s = []"
| "source_counts w cat max_per_source (source_key # rest) s =
     (case scrape_source w source_key cat max_per_source s of
        (count, s') \<Rightarrow> count # source_counts w cat max_per_source rest s')"

section \<open>The extraction rule in the words of the specification\<close>

text \<open>
  The specification rejects a candidate whose name is empty, shorter than 11 or longer
  than 199 characters, or contains one of the navigation words case-insensitively.
\<close>

definition spec_plausible_name :: "pystr \<Rightarrow> bool" where
  "spec_plausible_name nm =
     (nm \<noteq> [] \<and> 11 \<le> length nm \<and> length nm \<le> 199
      \<and> \<not> list_ex (\<lambda>w. contains (lower nm) w) noise_words)"

text \<open>Every element at its first occurrence, those in \<open>seen\<close> left out.\<close>

fun first_occurrences :: "'a set \<Rightarrow> 'a list \<Rightarrow> 'a list" where
  "first_occurrences seen [] = []"
| "first_occurrences seen (x # xs) =
     (if x \<in> seen then first_occurrences seen xs
      else x # first_occurrences (insert x seen) xs)"

text \<open>
  The names the specification lets through: in document order the plausible names,
  each once, cut at the cap.
\<close>

definition spec_survivors :: "int \<Rightarrow> anchor list \<Rightarrow> pystr list" where
  "spec_survivors max_results links =
     take (nat max_results)
       (first_occurrences {} (filter spec_plausible_name (map link_name links)))"

text \<open>The records that a call has appended to \<^verbatim>\<open>self.products\<close>.\<close>

definition emitted :: "scraper \<Rightarrow> scraper \<Rightarrow> raw_record list" where
  "emitted s s' = drop (length (products s)) (products s')"

section \<open>Sample inputs\<close>

text \<open>Inputs at which the properties below are evaluated.\<close>

definition rupee_5000 :: pystr where
  "rupee_5000 = rupee # ascii '' 5,000''"

definition rupee_lakh :: pystr where
  "rupee_lakh = rupee # ascii '' 2.50 Lakh''"

text \<open>An anchor with a price next to it, and the record the extractor builds from it.\<close>

definition sample_link :: anchor where
  "sample_link =
     \<lparr>title_attr = Some (ascii ''Industrial Safety Helmet''), text_stripped = ascii ''Buy'',
      href = ascii ''/p/1'', parent_strings = Some [ascii ''New'', ascii '' Rs 450 '']\<rparr>"

definition sample_product :: raw_record where
  "sample_product =
     make_product (ascii ''2024-01-01T10:00:00'') (ascii ''safety equipment'')
       (ascii ''TradeIndia'') sample_link (link_name sample_link)"

text \<open>The same record with the company and the location unresolved.\<close>

definition sample_unresolved :: raw_record where
  "sample_unresolved = sample_product\<lparr>company := Some unknown, location := None\<rparr>"

text \<open>The sample record with the empty text as url, and with no url.\<close>

definition sample_empty_url :: raw_record where
  "sample_empty_url = sample_product\<lparr>url := Some []\<rparr>"

definition sample_null_url :: raw_record where
  "sample_null_url = sample_product\<lparr>url := None\<rparr>"

text \<open>
  Three rows with the same name: two raw companies that clean to the same company, and
  the first row again as another source reports it.
\<close>

definition sample_acme_ltd :: raw_record where
  "sample_acme_ltd = sample_product\<lparr>company := Some (ascii ''Acme Ltd'')\<rparr>"

definition sample_acme :: raw_record where
  "sample_acme = sample_product\<lparr>company := Some (ascii ''Acme'')\<rparr>"

definition sample_acme_ltd_again :: raw_record where
  "sample_acme_ltd_again = sample_acme_ltd\<lparr>source := Some (ascii ''Alibaba'')\<rparr>"

text \<open>Locations: a city alone, two states in one text, and a region that is not listed.\<close>

definition mumbai :: pystr where
  "mumbai = ascii ''Mumbai''"

definition delhi_gujarat :: pystr where
  "delhi_gujarat = ascii ''New Delhi, gujarat''"

definition pune_goa :: pystr where
  "pune_goa = ascii ''Pune, Goa ''"

text \<open>
  A page: two navigation links, the sample anchor, an anchor whose empty title gives way
  to its text of 50 characters, the sample anchor again, and one more product.
\<close>

definition link_home :: anchor where
  "link_home =
     \<lparr>title_attr = None, text_stripped = ascii ''Home'', href = ascii ''/'',
      parent_strings = Some []\<rparr>"

definition link_contact :: anchor where
  "link_contact =
     \<lparr>title_attr = Some (ascii ''Contact Us Page Link''), text_stripped = ascii ''Contact'',
      href = ascii ''/contact'', parent_strings = Some []\<rparr>"

definition press_name :: pystr where
  "press_name = ascii ''Heavy Duty Hydraulic Press Machine For Sheet Metal''"

definition link_press :: anchor where
  "link_press =
     \<lparr>title_attr = Some [], text_stripped = press_name, href = ascii ''/p/2'',
      parent_strings = None\<rparr>"

definition link_valve :: anchor where
  "link_valve =
     \<lparr>title_attr = None, text_stripped = ascii ''Stainless Steel Ball Valve'',
      href = [], parent_strings = Some [ascii ''Price: ,'']\<rparr>"

definition sample_page :: "anchor list" where
  "sample_page = [link_home, link_contact, sample_link, link_press, sample_link, link_valve]"

text \<open>
  A session in which the first request gives the sample page, the second raises, the
  third is refused with status 404, and every later one gives a page with one product.
\<close>

definition sample_world :: world where
  "sample_world =
     \<lparr>respond = (\<lambda>n u. if n = 0 then Response 200 (Page sample_page)
                       else if n = 1 then Raised
                       else if n = 2 then Response 404 (Page sample_page)
                       else Response 200 (Page [link_valve])),
      clock = (\<lambda>n. ascii ''2024-01-01T10:00:00'')\<rparr>"

definition fresh_scraper :: scraper where
  "fresh_scraper = \<lparr>products = [], requests = 0\<rparr>"

definition sample_keys :: "pystr list" where
  "sample_keys =
     [ascii ''tradeindia'', ascii ''alibaba'', ascii ''indiamart'', ascii ''dhgate'',
      ascii ''exportersindia'']"

section \<open>Texts\<close>

lemmas text_defs = ascii_def rupee_def is_digit_def lower_def lower_cp_def is_space_def
  is_upper_def is_lower_def is_cased_def upper_cp_def strip_def title_def collapse_spaces_def
  unknown_def

lemma starts_with_iff: "starts_with s p \<longleftrightarrow> (\<exists>q. s = p @ q)"
  by (induction s p rule: starts_with.induct) auto

lemma contains_iff: "contains s sub \<longleftrightarrow> (\<exists>p q. s = p @ sub @ q)"
proof (induction s)
  case Nil
  then show ?case by auto
next
  case (Cons c cs)
  show ?case
  proof
    assume "contains (c # cs) sub"
    then consider "starts_with (c # cs) sub" | "contains cs sub" by auto
    then show "\<exists>p q. c # cs = p @ sub @ q"
    proof cases
      case 1
      then obtain q where "c # cs = sub @ q" by (auto simp: starts_with_iff)
      then have "c # cs = [] @ sub @ q" by simp
      then show ?thesis by blast
    next
      case 2
      then obtain p q where "cs = p @ sub @ q" using Cons.IH by blast
      then have "c # cs = (c # p) @ sub @ q" by simp
      then show ?thesis by blast
    qed
  next
    assume "\<exists>p q. c # cs = p @ sub @ q"
    then obtain p q where pq: "c # cs = p @ sub @ q" by blast
    show "contains (c # cs) sub"
    proof (cases p)
      case Nil
      then have "starts_with (c # cs) sub" using pq by (auto simp: starts_with_iff)
      then show ?thesis by simp
    next
      case (Cons a p')
      then have "cs = p' @ sub @ q" using pq by simp
      then have "contains cs sub" using Cons.IH by blast
      then show ?thesis by simp
    qed
  qed
qed

section \<open>Properties of the price normalizer\<close>

lemma clean_price_missing: "clean_price None = None"
  by (simp add: clean_price_def)

lemma clean_price_sentinel: "clean_price (Some price_not_available) = None"
  by (simp add: clean_price_def)

lemma first_number_None_iff: "first_number s = None \<longleftrightarrow> (\<forall>c\<in>set s. \<not> is_digit c)"
proof (cases "dropWhile (\<lambda>c. \<not> is_digit c) s")
  case Nil
  then have "first_number s = None" by (simp only: first_number_def Let_def simp_thms if_True)
  moreover from Nil have "\<forall>c\<in>set s. \<not> is_digit c" by (simp only: dropWhile_eq_Nil_conv)
  ultimately show ?thesis by blast
next
  case (Cons a r)
  define r1 where "r1 = dropWhile is_digit (a # r)"
  define ip where "ip = takeWhile is_digit (a # r)"
  have eq: "first_number s =
     (case r1 of [] \<Rightarrow> Some (ip, False, [])
      | c # r2 \<Rightarrow> if c = 46 then Some (ip, True, takeWhile is_digit r2)
                  else Some (ip, False, []))"
    unfolding r1_def ip_def
    by (simp only: first_number_def Let_def Cons list.distinct simp_thms if_False)
  have "\<exists>m. first_number s = Some m"
  proof (cases r1)
    case Nil
    with eq have "first_number s = Some (ip, False, [])" by (simp only: list.case)
    then show ?thesis by (rule exI)
  next
    case (Cons c r2)
    with eq have e: "first_number s =
        (if c = 46 then Some (ip, True, takeWhile is_digit r2) else Some (ip, False, []))"
      by (simp only: list.case)
    show ?thesis
    proof (cases "c = 46")
      case True
      with e have "first_number s = Some (ip, True, takeWhile is_digit r2)" by (simp only: if_True simp_thms)
      then show ?thesis by (rule exI)
    next
      case False
      with e have "first_number s = Some (ip, False, [])" by (simp only: if_False simp_thms)
      then show ?thesis by (rule exI)
    qed
  qed
  then have "first_number s \<noteq> None" by (metis option.distinct(1))
  moreover from Cons have "\<not> (\<forall>c\<in>set s. \<not> is_digit c)"
    by (metis dropWhile_eq_Nil_conv list.distinct(1))
  ultimately show ?thesis by blast
qed

text \<open>
  The match lies in the text behind a part without digits: it is the leftmost number.
  It begins with a digit and has digits only around its dot.
\<close>

lemma first_number_text:
  assumes "first_number s = Some m"
  shows "\<exists>p q. s = p @ number_text m @ q \<and> (\<forall>c\<in>set p. \<not> is_digit c)
           \<and> fst m \<noteq> [] \<and> (\<forall>c\<in>set (fst m). is_digit c)
           \<and> (\<forall>c\<in>set (snd (snd m)). is_digit c)"
proof -
  define p where "p = takeWhile (\<lambda>c. \<not> is_digit c) s"
  define r where "r = dropWhile (\<lambda>c. \<not> is_digit c) s"
  define ip where "ip = takeWhile is_digit r"
  define r1 where "r1 = dropWhile is_digit r"
  have s: "s = p @ r" by (simp add: p_def r_def)
  have p: "\<forall>c\<in>set p. \<not> is_digit c" unfolding p_def by (auto dest: set_takeWhileD)
  have r: "r = ip @ r1" by (simp add: ip_def r1_def)
  have ipd: "\<forall>c\<in>set ip. is_digit c" unfolding ip_def by (auto dest: set_takeWhileD)
  have rne: "r \<noteq> []"
  proof
    assume "r = []"
    then have "first_number s = None" unfolding r_def
      by (simp only: first_number_def Let_def simp_thms if_True)
    with assms show False by (metis option.distinct(1))
  qed
  then have "\<not> \<not> is_digit (hd r)" unfolding r_def by (rule hd_dropWhile)
  then have "is_digit (hd r)" by (simp only: not_not)
  with rne have ipne: "ip \<noteq> []" unfolding ip_def by (cases r) auto
  have eq: "first_number s =
     (case r1 of [] \<Rightarrow> Some (ip, False, [])
      | c # r2 \<Rightarrow> if c = 46 then Some (ip, True, takeWhile is_digit r2)
                  else Some (ip, False, []))"
    using rne unfolding r_def r1_def ip_def
    by (simp only: first_number_def Let_def simp_thms if_False)
  show ?thesis
  proof (cases r1)
    case Nil
    with eq have "first_number s = Some (ip, False, [])" by (simp only: list.case)
    with assms have m: "m = (ip, False, [])" by (metis option.inject)
    have "s = p @ number_text m @ []" using s r Nil m by (simp add: number_text_def)
    with p ipne ipd m show ?thesis by (intro exI [of _ p] exI [of _ "[]"]) simp
  next
    case (Cons c r2)
    with eq have e: "first_number s =
        (if c = 46 then Some (ip, True, takeWhile is_digit r2) else Some (ip, False, []))"
      by (simp only: list.case)
    show ?thesis
    proof (cases "c = 46")
      case True
      with e have "first_number s = Some (ip, True, takeWhile is_digit r2)"
        by (simp only: if_True simp_thms)
      with assms have m: "m = (ip, True, takeWhile is_digit r2)" by (metis option.inject)
      have "s = p @ number_text m @ dropWhile is_digit r2"
        using s r Cons True m by (simp add: number_text_def)
      moreover have "\<forall>c\<in>set (takeWhile is_digit r2). is_digit c"
        by (auto dest: set_takeWhileD)
      ultimately show ?thesis using p ipne ipd m
        by (intro exI [of _ p] exI [of _ "dropWhile is_digit r2"]) simp
    next
      case False
      with e have "first_number s = Some (ip, False, [])" by (simp only: if_False simp_thms)
      with assms have m: "m = (ip, False, [])" by (metis option.inject)
      have "s = p @ number_text m @ r1" using s r m by (simp add: number_text_def)
      with p ipne ipd m show ?thesis by (intro exI [of _ p] exI [of _ r1]) simp
    qed
  qed
qed

lemma clean_price_no_digit: "\<forall>c\<in>set s. \<not> is_digit c \<Longrightarrow> clean_price (Some s) = None"
proof -
  assume "\<forall>c\<in>set s. \<not> is_digit c"
  then have "first_number s = None" by (simp only: first_number_None_iff)
  then show ?thesis by (simp add: clean_price_def)
qed

lemma clean_price_lakh_example: "clean_price (Some rupee_lakh) = Some 250000"
  by code_simp

text \<open>
  What the record extractor does with the same text: its pattern \<^verbatim>\<open>[\d,]+\<close> takes the
  commas into the run and removes them before the conversion.
\<close>

lemma parse_grouped_comma_example: "parse_grouped rupee_5000 = Some 5000"
  by code_simp

text \<open>
  C1. The price normalizer gives null for a null input, for the text
  \<^verbatim>\<open>Price not available\<close> and for a text without a digit (\<open>clean_price_missing\<close>,
  \<open>clean_price_sentinel\<close>, \<open>clean_price_no_digit\<close>), and 250000 for the rupee sign
  followed by \<^verbatim>\<open> 2.50 Lakh\<close> (\<open>clean_price_lakh_example\<close>). For the rupee sign followed
  by \<^verbatim>\<open> 5,000\<close> the claim names 5000; the pattern \<^verbatim>\<open>\d+\.?\d*\<close> stops at the comma,
  so the first match is \<^verbatim>\<open>5\<close> and the result is 5.
\<close>

theorem clean_price_comma_grouped: "clean_price (Some rupee_5000) = Some 5"
  by code_simp



section \<open>Properties of the price categories\<close>

lemma labels_distinct:
  "distinct [unknown, budget_label, low_label, medium_label, high_label, premium_label]"
  by (simp add: unknown_def budget_label_def low_label_def medium_label_def high_label_def
      premium_label_def ascii_def)

text \<open>
  C4. \<^verbatim>\<open>categorize_price\<close> gives \<^verbatim>\<open>Unknown\<close> for a null price and otherwise exactly one
  of the five labels Budget, Low, Medium, High, Premium, which are pairwise different:
  Budget below 1000, Low from 1000 to below 10000, Medium from 10000 to below 50000,
  High from 50000 to below 100000, Premium from 100000 on. Each of the boundary values
  1000, 10000, 50000, 100000 falls into the higher bin.
\<close>

theorem categorize_price_bins:
  "categorize_price None = unknown
   \<and> categorize_price (Some p) \<in> {budget_label, low_label, medium_label, high_label, premium_label}
   \<and> distinct [unknown, budget_label, low_label, medium_label, high_label, premium_label]
   \<and> (categorize_price (Some p) = budget_label) = (p < 1000)
   \<and> (categorize_price (Some p) = low_label) = (1000 \<le> p \<and> p < 10000)
   \<and> (categorize_price (Some p) = medium_label) = (10000 \<le> p \<and> p < 50000)
   \<and> (categorize_price (Some p) = high_label) = (50000 \<le> p \<and> p < 100000)
   \<and> (categorize_price (Some p) = premium_label) = (100000 \<le> p)
   \<and> categorize_price (Some 1000) = low_label
   \<and> categorize_price (Some 10000) = medium_label
   \<and> categorize_price (Some 50000) = high_label
   \<and> categorize_price (Some 100000) = premium_label"
  using labels_distinct by (auto simp: categorize_price_def)

section \<open>Properties of the quality score\<close>

lemma sample_link_price: "nearby_price sample_link = (ascii ''Rs 450'', Some 450)"
  by (simp add: nearby_price_def sample_link_def price_pattern_def parse_grouped_def
      first_grouped_number_def digits_value_def text_defs)

lemma clean_price_rs_450: "clean_price (Some (ascii ''Rs 450'')) = Some 450"
  by (simp add: clean_price_def first_number_def py_float_def digits_value_def
      price_not_available_def text_defs)

lemma clean_location_india: "clean_location (Some (ascii ''India'')) = ascii ''India''"
  by (simp add: clean_location_def location_not_available_def text_defs)

lemma india_not_unknown: "ascii ''India'' \<noteq> unknown"
  by (simp add: text_defs)

lemma to_be_updated_not_unknown: "ascii ''To be updated'' \<noteq> unknown"
  by (simp add: text_defs)

lemma quality_score_add_columns:
  "quality_score (add_columns r) =
     as_int (name r \<noteq> None) * 30 + as_int (clean_price (price r) \<noteq> None) * 25
     + as_int (company r \<noteq> Some unknown) * 20
     + as_int (clean_location (location r) \<noteq> unknown) * 15
     + as_int (url r \<noteq> None) * 10"
  by (simp add: quality_score_def add_columns_def)

lemma sample_product_fields:
  "name sample_product = Some (ascii ''Industrial Safety Helmet'')
   \<and> price sample_product = Some (ascii ''Rs 450'')
   \<and> company sample_product = Some (ascii ''To be updated'')
   \<and> location sample_product = Some (ascii ''India'')
   \<and> url sample_product = Some (ascii ''/p/1'')"
  by (simp add: sample_product_def make_product_def sample_link_price)
     (simp add: link_name_def sample_link_def ascii_def)

lemma sample_unresolved_fields:
  "name sample_unresolved = Some (ascii ''Industrial Safety Helmet'')
   \<and> price sample_unresolved = Some (ascii ''Rs 450'')
   \<and> company sample_unresolved = Some unknown
   \<and> location sample_unresolved = None
   \<and> url sample_unresolved = Some (ascii ''/p/1'')"
  by (simp add: sample_unresolved_def sample_product_fields)

text \<open>
  C2. The quality score of a row is the sum of five independent checks: 30 for a name
  that is present, 25 for a \<^verbatim>\<open>price_cleaned\<close> that is not null, 20 for a company other
  than \<^verbatim>\<open>Unknown\<close>, 15 for a \<^verbatim>\<open>location_cleaned\<close> other than \<^verbatim>\<open>Unknown\<close>, 10 for a url
  that is present. It lies between 0 and 100, and \<^verbatim>\<open>calculate_quality_score\<close> gives it
  row by row. A row with a name, a parsed price, the company \<^verbatim>\<open>Unknown\<close>, the cleaned
  location \<^verbatim>\<open>Unknown\<close> and a url scores 30 + 25 + 0 + 0 + 10 = 65.
\<close>

theorem quality_score_sum:
  "quality_score r =
     (if name r \<noteq> None then 30 else 0) + (if price_cleaned r \<noteq> None then 25 else 0)
     + (if company r \<noteq> Some unknown then 20 else 0)
     + (if location_cleaned r \<noteq> unknown then 15 else 0)
     + (if url r \<noteq> None then 10 else 0)
   \<and> 0 \<le> quality_score r \<and> quality_score r \<le> 100
   \<and> length (calculate_quality_score df) = length df
   \<and> (\<forall>i<length df. calculate_quality_score df ! i = quality_score (df ! i))
   \<and> (name r \<noteq> None \<and> price_cleaned r \<noteq> None \<and> company r = Some unknown
        \<and> location_cleaned r = unknown \<and> url r \<noteq> None \<longrightarrow> quality_score r = 65)"
  by (simp add: quality_score_def calculate_quality_score_def as_int_def)

text \<open>The score 65 at the sample record whose company and location are unresolved.\<close>

theorem quality_score_sum_witness:
  "quality_score (add_columns sample_unresolved) = 65
   \<and> calculate_quality_score [add_columns sample_unresolved, add_columns sample_product] ! 0 = 65"
proof -
  let ?r = "add_columns sample_unresolved"
  let ?df = "[add_columns sample_unresolved, add_columns sample_product]"
  have h: "name ?r \<noteq> None \<and> price_cleaned ?r \<noteq> None \<and> company ?r = Some unknown
        \<and> location_cleaned ?r = unknown \<and> url ?r \<noteq> None"
    by (simp add: add_columns_def sample_unresolved_fields clean_price_rs_450 clean_location_def)
  have l: "(0::nat) < length ?df" by simp
  have "quality_score ?r = 65" using quality_score_sum [of ?r ?df] h by blast
  moreover have "calculate_quality_score ?df ! 0 = quality_score (?df ! 0)"
    using quality_score_sum [of ?r ?df] l by blast
  ultimately show ?thesis by simp
qed

text \<open>
  The defaults that the record extractor writes, company \<^verbatim>\<open>To be updated\<close> and location
  \<^verbatim>\<open>India\<close>, are not \<^verbatim>\<open>Unknown\<close>: the record built from the sample anchor has a
  name, a parsed price, both defaults and a url, and scores 100, not 65.
\<close>

theorem quality_score_default_company_counterexample:
  "name (add_columns sample_product) \<noteq> None
   \<and> price_cleaned (add_columns sample_product) = Some 450
   \<and> company (add_columns sample_product) = Some (ascii ''To be updated'')
   \<and> location (add_columns sample_product) = Some (ascii ''India'')
   \<and> url (add_columns sample_product) = Some (ascii ''/p/1'')
   \<and> quality_score (add_columns sample_product) = 100
   \<and> quality_score (add_columns sample_product) \<noteq> 65"
proof -
  have q: "quality_score (add_columns sample_product) = 100"
    using to_be_updated_not_unknown india_not_unknown
    by (simp add: quality_score_add_columns sample_product_fields clean_price_rs_450
        clean_location_india as_int_def)
  have f: "name (add_columns sample_product) \<noteq> None
   \<and> price_cleaned (add_columns sample_product) = Some 450
   \<and> company (add_columns sample_product) = Some (ascii ''To be updated'')
   \<and> location (add_columns sample_product) = Some (ascii ''India'')
   \<and> url (add_columns sample_product) = Some (ascii ''/p/1'')"
    by (simp add: add_columns_def sample_product_fields clean_price_rs_450)
  from q f show ?thesis by simp
qed

text \<open>
  The record extractor writes the \<^verbatim>\<open>href\<close> of the anchor into the url: an anchor with
  an empty \<^verbatim>\<open>href\<close> gives a record whose url is the empty text, not a missing one.
\<close>

lemma make_product_empty_href:
  "url (make_product now cat source_name (link\<lparr>href := []\<rparr>) nm) = Some []"
  by (simp add: make_product_def)

text \<open>
  C10. In the table that \<^verbatim>\<open>calculate_quality_score\<close> is given, a row whose url is the
  empty text gets the 10 points of the url: its score is the sum of the four other
  checks and 10, it is 10 more than the score of the same table with the url of that
  row missing, and it is the score of the same table with any other url in that row.
  The test is that the url is not null, not that it is not empty.
\<close>

theorem calculate_quality_score_empty_url:
  assumes "i < length df" and "url (df ! i) = Some []"
  shows "calculate_quality_score df ! i =
           (if name (df ! i) \<noteq> None then 30 else 0)
           + (if price_cleaned (df ! i) \<noteq> None then 25 else 0)
           + (if company (df ! i) \<noteq> Some unknown then 20 else 0)
           + (if location_cleaned (df ! i) \<noteq> unknown then 15 else 0) + 10
     \<and> calculate_quality_score df ! i =
           calculate_quality_score (df[i := (df ! i)\<lparr>url := None\<rparr>]) ! i + 10
     \<and> calculate_quality_score df ! i =
           calculate_quality_score (df[i := (df ! i)\<lparr>url := Some u\<rparr>]) ! i"
  using assms by (simp add: calculate_quality_score_def quality_score_def as_int_def)

text \<open>
  The sample record with the empty text as url is the second row of a table and scores
  100; with the url missing the same row scores 90.
\<close>

theorem calculate_quality_score_empty_url_witness:
  "calculate_quality_score [add_columns sample_product, add_columns sample_empty_url] ! 1 = 100
   \<and> calculate_quality_score [add_columns sample_product, add_columns sample_null_url] ! 1 = 90"
proof -
  let ?df = "[add_columns sample_product, add_columns sample_empty_url]"
  have l: "1 < length ?df" by simp
  have f: "name (?df ! 1) \<noteq> None \<and> price_cleaned (?df ! 1) \<noteq> None
      \<and> company (?df ! 1) \<noteq> Some unknown \<and> location_cleaned (?df ! 1) \<noteq> unknown"
    using to_be_updated_not_unknown india_not_unknown
    by (simp add: add_columns_def sample_empty_url_def sample_product_fields clean_price_rs_450
        clean_location_india)
  have u: "url (?df ! 1) = Some []" by (simp add: add_columns_def sample_empty_url_def)
  have n: "?df[1 := (?df ! 1)\<lparr>url := None\<rparr>]
           = [add_columns sample_product, add_columns sample_null_url]"
    by (simp add: add_columns_def sample_empty_url_def sample_null_url_def)
  from calculate_quality_score_empty_url [OF l u]
  have a: "calculate_quality_score ?df ! 1 =
           (if name (?df ! 1) \<noteq> None then 30 else 0)
           + (if price_cleaned (?df ! 1) \<noteq> None then 25 else 0)
           + (if company (?df ! 1) \<noteq> Some unknown then 20 else 0)
           + (if location_cleaned (?df ! 1) \<noteq> unknown then 15 else 0) + 10"
    and b: "calculate_quality_score ?df ! 1 =
           calculate_quality_score (?df[1 := (?df ! 1)\<lparr>url := None\<rparr>]) ! 1 + 10"
    by blast+
  from a f have t: "calculate_quality_score ?df ! 1 = 100" by (simp only: if_True) simp
  from b t have "calculate_quality_score (?df[1 := (?df ! 1)\<lparr>url := None\<rparr>]) ! 1 = 90"
    by simp
  with n have "calculate_quality_score [add_columns sample_product, add_columns sample_null_url] ! 1
               = 90"
    by (simp only:)
  with t show ?thesis by simp
qed

section \<open>Properties of the cleaning pass\<close>

lemma drop_duplicates_from_append:
  "drop_duplicates_from seen (xs @ ys) =
     drop_duplicates_from seen xs @ drop_duplicates_from (seen \<union> dedup_key ` set xs) ys"
proof (induction xs arbitrary: seen)
  case Nil
  then show ?case by simp
next
  case (Cons x xs)
  show ?case
  proof (cases "dedup_key x \<in> seen")
    case True
    then have "seen \<union> dedup_key ` set (x # xs) = seen \<union> dedup_key ` set xs" by auto
    with True Cons.IH [of seen] show ?thesis by simp
  next
    case False
    have "insert (dedup_key x) seen \<union> dedup_key ` set xs = seen \<union> dedup_key ` set (x # xs)"
      by auto
    with False Cons.IH [of "insert (dedup_key x) seen"] show ?thesis by simp
  qed
qed

lemma drop_duplicates_from_keys:
  "dedup_key ` set (drop_duplicates_from seen df) = dedup_key ` set df - seen"
  by (induction df arbitrary: seen) auto

lemma drop_duplicates_from_distinct:
  "distinct (map dedup_key (drop_duplicates_from seen df))"
proof (induction df arbitrary: seen)
  case Nil
  then show ?case by simp
next
  case (Cons x xs)
  have "dedup_key x \<notin> dedup_key ` set (drop_duplicates_from (insert (dedup_key x) seen) xs)"
    by (simp add: drop_duplicates_from_keys)
  with Cons.IH show ?case by simp
qed

lemma drop_duplicates_from_first:
  "r \<in> set (drop_duplicates_from seen df) \<Longrightarrow> find (\<lambda>x. dedup_key x = dedup_key r) df = Some r"
proof (induction df arbitrary: seen)
  case Nil
  then show ?case by simp
next
  case (Cons x xs)
  show ?case
  proof (cases "dedup_key x \<in> seen")
    case True
    with Cons.prems have in_rest: "r \<in> set (drop_duplicates_from seen xs)" by simp
    then have "dedup_key r \<in> dedup_key ` set xs - seen"
      using drop_duplicates_from_keys [of seen xs] by blast
    with True have "dedup_key x \<noteq> dedup_key r" by auto
    with Cons.IH [OF in_rest] show ?thesis by simp
  next
    case False
    show ?thesis
    proof (cases "r = x")
      case True
      then show ?thesis by simp
    next
      case neq: False
      with False Cons.prems
      have in_rest: "r \<in> set (drop_duplicates_from (insert (dedup_key x) seen) xs)" by simp
      then have "dedup_key r \<in> dedup_key ` set xs - insert (dedup_key x) seen"
        using drop_duplicates_from_keys [of "insert (dedup_key x) seen" xs] by blast
      then have "dedup_key x \<noteq> dedup_key r" by auto
      with Cons.IH [OF in_rest] show ?thesis by simp
    qed
  qed
qed

lemma drop_duplicates_from_map:
  assumes "\<And>r. dedup_key (f r) = dedup_key r"
  shows "drop_duplicates_from seen (map f df) = map f (drop_duplicates_from seen df)"
  by (induction df arbitrary: seen) (simp_all add: assms)

lemma add_columns_key: "dedup_key (add_columns r) = dedup_key r"
  by (simp add: dedup_key_def add_columns_def)

lemma add_columns_name: "name (add_columns r) = name r"
  by (simp add: add_columns_def)

lemma dropna_name_map_add_columns:
  "dropna_name (map add_columns df) = map add_columns (dropna_name df)"
  by (induction df) (simp_all add: dropna_name_def add_columns_name)

lemma clean_data_snoc:
  "clean_data (df @ [r]) =
     clean_data df @ (if name r \<noteq> None \<and> dedup_key r \<notin> dedup_key ` set df
                      then [add_columns r] else [])"
  by (simp add: clean_data_def drop_duplicates_def dropna_name_def drop_duplicates_from_append)

lemma clean_data_first_occurrence:
  assumes "c \<in> set (clean_data df)"
  shows "\<exists>x. find (\<lambda>y. dedup_key y = dedup_key c) df = Some x \<and> c = add_columns x"
proof -
  from assms obtain x where x: "x \<in> set (drop_duplicates df)" and c: "c = add_columns x"
    by (auto simp: clean_data_def dropna_name_def)
  from x have "find (\<lambda>y. dedup_key y = dedup_key x) df = Some x"
    unfolding drop_duplicates_def by (rule drop_duplicates_from_first)
  with c show ?thesis by (simp add: add_columns_key)
qed

lemma clean_data_keeps_named:
  assumes "x \<in> set df" and "name x \<noteq> None"
  shows "\<exists>c\<in>set (clean_data df). dedup_key c = dedup_key x"
proof -
  from assms(1) have "dedup_key x \<in> dedup_key ` set (drop_duplicates df)"
    by (simp add: drop_duplicates_def drop_duplicates_from_keys)
  then obtain y where y: "y \<in> set (drop_duplicates df)" and k: "dedup_key y = dedup_key x"
    by auto
  from k assms(2) have "name y \<noteq> None" by (simp add: dedup_key_def)
  with y have "add_columns y \<in> set (clean_data df)"
    by (simp add: clean_data_def dropna_name_def)
  moreover have "dedup_key (add_columns y) = dedup_key x" using k by (simp add: add_columns_key)
  ultimately show ?thesis by blast
qed

lemma clean_data_distinct: "distinct (map dedup_key (clean_data df))"
proof -
  have "map dedup_key (clean_data df) = map dedup_key (dropna_name (drop_duplicates df))"
    by (simp add: clean_data_def add_columns_key comp_def)
  also have "\<dots> = filter (\<lambda>k. fst k \<noteq> None) (map dedup_key (drop_duplicates df))"
    by (simp add: dropna_name_def filter_map comp_def dedup_key_def)
  finally show ?thesis
    by (simp add: drop_duplicates_def drop_duplicates_from_distinct)
qed

text \<open>
  C3. Duplicates are found by the pair of the name and the raw company. The table that
  \<^verbatim>\<open>clean_data\<close> returns grows with the input row by row: a row is appended to the
  output exactly when it has a name and no earlier row has its pair. So the pairs of
  the output rows are distinct, every output row is the first row of the input with its
  pair, and every pair of an input row that has a name is in the output. Two rows with
  the same name and company, whatever else differs, give one output row, the first; two
  rows with the same name and different raw companies both stay, whatever their cleaned
  company is.
\<close>

theorem clean_data_dedup:
  "clean_data [] = []
   \<and> clean_data (df @ [r]) =
       clean_data df @ (if name r \<noteq> None \<and> (name r, company r) \<notin> (\<lambda>x. (name x, company x)) ` set df
                        then [add_columns r] else [])
   \<and> distinct (map (\<lambda>c. (name c, company c)) (clean_data df))
   \<and> (\<forall>c\<in>set (clean_data df).
         \<exists>x. find (\<lambda>y. (name y, company y) = (name c, company c)) df = Some x \<and> c = add_columns x)
   \<and> (\<forall>x\<in>set df. name x \<noteq> None \<longrightarrow>
         (\<exists>c\<in>set (clean_data df). (name c, company c) = (name x, company x)))
   \<and> (name r1 \<noteq> None \<and> name r1 = name r2 \<and> company r1 = company r2 \<longrightarrow>
         clean_data [r1, r2] = [add_columns r1])
   \<and> (name r1 \<noteq> None \<and> name r1 = name r2 \<and> company r1 \<noteq> company r2 \<longrightarrow>
         clean_data [r1, r2] = [add_columns r1, add_columns r2])"
proof -
  have "clean_data [] = []"
    by (simp add: clean_data_def drop_duplicates_def dropna_name_def)
  moreover note clean_data_snoc [of df r, unfolded dedup_key_def [abs_def]]
  moreover note clean_data_distinct [of df, unfolded dedup_key_def [abs_def]]
  moreover have "\<forall>c\<in>set (clean_data df).
         \<exists>x. find (\<lambda>y. (name y, company y) = (name c, company c)) df = Some x \<and> c = add_columns x"
    using clean_data_first_occurrence [of _ df] by (simp add: dedup_key_def)
  moreover have "\<forall>x\<in>set df. name x \<noteq> None \<longrightarrow>
         (\<exists>c\<in>set (clean_data df). (name c, company c) = (name x, company x))"
    using clean_data_keeps_named [of _ df] by (simp add: dedup_key_def)
  moreover have "name r1 \<noteq> None \<and> name r1 = name r2 \<and> company r1 = company r2 \<longrightarrow>
         clean_data [r1, r2] = [add_columns r1]"
    by (auto simp: clean_data_def drop_duplicates_def dropna_name_def dedup_key_def)
  moreover have "name r1 \<noteq> None \<and> name r1 = name r2 \<and> company r1 \<noteq> company r2 \<longrightarrow>
         clean_data [r1, r2] = [add_columns r1, add_columns r2]"
    by (auto simp: clean_data_def drop_duplicates_def dropna_name_def dedup_key_def)
  ultimately show ?thesis by blast
qed

text \<open>
  The sample rows: the second report of the same name and company is dropped although
  its source differs; the companies \<^verbatim>\<open>Acme Ltd\<close> and \<^verbatim>\<open>Acme\<close> both stay although both
  clean to \<^verbatim>\<open>Acme\<close>.
\<close>

lemma clean_company_acme_ltd: "clean_company_name (Some (ascii ''Acme Ltd'')) = ascii ''Acme''"
  by (simp add: clean_company_name_def suffixes_def match_suffix_def word_boundary_def
      head_opt_def is_word_def text_defs)

lemma clean_company_acme: "clean_company_name (Some (ascii ''Acme'')) = ascii ''Acme''"
  by (simp add: clean_company_name_def suffixes_def match_suffix_def word_boundary_def
      head_opt_def is_word_def text_defs)

theorem clean_data_dedup_witness:
  "clean_data [sample_acme_ltd, sample_acme_ltd_again] = [add_columns sample_acme_ltd]
   \<and> source sample_acme_ltd \<noteq> source sample_acme_ltd_again
   \<and> clean_data [sample_acme_ltd, sample_acme] = [add_columns sample_acme_ltd, add_columns sample_acme]
   \<and> company_cleaned (add_columns sample_acme_ltd) = company_cleaned (add_columns sample_acme)"
proof -
  have n: "name sample_acme_ltd \<noteq> None"
    by (simp add: sample_acme_ltd_def sample_product_fields)
  have same: "name sample_acme_ltd = name sample_acme_ltd_again
      \<and> company sample_acme_ltd = company sample_acme_ltd_again"
    by (simp add: sample_acme_ltd_again_def)
  have other: "name sample_acme_ltd = name sample_acme
      \<and> company sample_acme_ltd \<noteq> company sample_acme"
    by (simp add: sample_acme_ltd_def sample_acme_def ascii_def)
  have src: "source sample_acme_ltd \<noteq> source sample_acme_ltd_again"
    by (simp add: sample_acme_ltd_again_def sample_acme_ltd_def sample_product_def
        make_product_def ascii_def)
  have cc: "company_cleaned (add_columns sample_acme_ltd) = company_cleaned (add_columns sample_acme)"
    by (simp add: add_columns_def sample_acme_ltd_def sample_acme_def clean_company_acme_ltd
        clean_company_acme)
  have "clean_data [sample_acme_ltd, sample_acme_ltd_again] = [add_columns sample_acme_ltd]"
    using clean_data_dedup [of "[]" sample_acme_ltd sample_acme_ltd sample_acme_ltd_again] n same
    by blast
  moreover have "clean_data [sample_acme_ltd, sample_acme]
      = [add_columns sample_acme_ltd, add_columns sample_acme]"
    using clean_data_dedup [of "[]" sample_acme_ltd sample_acme_ltd sample_acme] n other
    by blast
  ultimately show ?thesis using src cc by simp
qed

text \<open>
  C6. Dropping rows first and adding the columns afterwards, as \<^verbatim>\<open>clean_data\<close> does,
  gives the same table as adding the columns to every row first and dropping rows
  afterwards: adding the columns leaves every raw column of a row as it is, the name and
  the company among them.
\<close>

theorem clean_data_pass_order:
  "clean_data df = clean_data_columns_first df
   \<and> raw_record.truncate (add_columns r) = r
   \<and> dedup_key (add_columns r) = dedup_key r"
proof -
  have "drop_duplicates (map add_columns df) = map add_columns (drop_duplicates df)"
    unfolding drop_duplicates_def by (rule drop_duplicates_from_map) (rule add_columns_key)
  then have "clean_data df = clean_data_columns_first df"
    by (simp add: clean_data_def clean_data_columns_first_def dropna_name_map_add_columns)
  moreover have "raw_record.truncate (add_columns r) = r"
    by (simp add: add_columns_def raw_record.truncate_def)
  ultimately show ?thesis by (simp add: add_columns_key)
qed

section \<open>Properties of the state extraction\<close>

text \<open>
  \<open>split\<close> is the inverse of joining with the separator, no segment holds the
  separator, and the last segment is the text behind the last separator.
\<close>

lemma split_acc_nonempty: "split_acc sep cur s \<noteq> []"
  by (induction s arbitrary: cur) auto

lemma split_acc_join:
  "concat (map (\<lambda>p. sep # p) (split_acc sep cur s)) = sep # cur @ s"
  by (induction s arbitrary: cur) auto

lemma split_acc_no_sep:
  "sep \<notin> set cur \<Longrightarrow> p \<in> set (split_acc sep cur s) \<Longrightarrow> sep \<notin> set p"
proof (induction s arbitrary: cur)
  case Nil
  then show ?case by simp
next
  case (Cons c cs)
  show ?case
  proof (cases "c = sep")
    case True
    with Cons.prems(2) consider "p = cur" | "p \<in> set (split_acc sep [] cs)" by auto
    then show ?thesis
    proof cases
      case 1
      with Cons.prems(1) show ?thesis by simp
    next
      case 2
      then show ?thesis using Cons.IH [of "[]"] by simp
    qed
  next
    case False
    with Cons.prems have "sep \<notin> set (cur @ [c])" and "p \<in> set (split_acc sep (cur @ [c]) cs)"
      by auto
    then show ?thesis by (rule Cons.IH)
  qed
qed

lemma split_acc_no_occurrence: "sep \<notin> set s \<Longrightarrow> split_acc sep cur s = [cur @ s]"
  by (induction s arbitrary: cur) auto

lemma last_split_acc:
  "last (split_acc sep cur s) =
     (if sep \<in> set s then rev (takeWhile (\<lambda>c. c \<noteq> sep) (rev s)) else cur @ s)"
proof (induction s arbitrary: cur)
  case Nil
  then show ?case by simp
next
  case (Cons c cs)
  show ?case
  proof (cases "c = sep")
    case True
    have "last (split_acc sep cur (c # cs)) = last (split_acc sep [] cs)"
      using True by (simp add: split_acc_nonempty)
    also have "\<dots> = (if sep \<in> set cs then rev (takeWhile (\<lambda>c. c \<noteq> sep) (rev cs)) else cs)"
      using Cons.IH [of "[]"] by simp
    also have "\<dots> = rev (takeWhile (\<lambda>c. c \<noteq> sep) (rev (c # cs)))"
      using True by (auto simp: takeWhile_append)
    finally show ?thesis using True by simp
  next
    case False
    have "last (split_acc sep cur (c # cs)) = last (split_acc sep (cur @ [c]) cs)"
      using False by simp
    also have "\<dots> = (if sep \<in> set cs then rev (takeWhile (\<lambda>c. c \<noteq> sep) (rev cs))
                      else (cur @ [c]) @ cs)"
      using Cons.IH [of "cur @ [c]"] by simp
    finally show ?thesis using False by (auto simp: takeWhile_append)
  qed
qed

lemma last_split: "last (split sep s) = rev (takeWhile (\<lambda>c. c \<noteq> sep) (rev s))"
proof (cases "sep \<in> set s")
  case True
  then show ?thesis by (simp add: split_def last_split_acc)
next
  case False
  then have "takeWhile (\<lambda>c. c \<noteq> sep) (rev s) = rev s"
    by (auto intro: takeWhile_eq_all_conv [THEN iffD2])
  then have "rev (takeWhile (\<lambda>c. c \<noteq> sep) (rev s)) = rev (rev s)" by (simp only:)
  moreover from False have "last (split sep s) = s" by (simp add: split_def last_split_acc)
  ultimately show ?thesis by (simp only: rev_rev_ident)
qed

text \<open>
  C8. For the location \<^verbatim>\<open>Unknown\<close> the state is \<^verbatim>\<open>Unknown\<close>. For any other location
  the state is the first entry of the list of states, in list order, whose lower-cased
  name occurs in the lower-cased location. When no entry occurs, the state is the
  stripped last segment of the location split at commas, that is the stripped text
  behind the last comma. The split always has a segment, so the branch that returns
  \<^verbatim>\<open>Unknown\<close> for an empty list of segments is never taken; a location without a comma
  is its own single segment.
\<close>

theorem extract_state_rule:
  "extract_state unknown = unknown
   \<and> (loc \<noteq> unknown \<and> i < length states \<and> contains (lower loc) (lower (states ! i))
        \<and> (\<forall>j<i. \<not> contains (lower loc) (lower (states ! j)))
        \<longrightarrow> extract_state loc = states ! i)
   \<and> (loc \<noteq> unknown \<and> (\<forall>st\<in>set states. \<not> contains (lower loc) (lower st))
        \<longrightarrow> extract_state loc = strip (last (split 44 loc)))
   \<and> last (split 44 loc) = rev (takeWhile (\<lambda>c. c \<noteq> 44) (rev loc))
   \<and> split 44 loc \<noteq> []
   \<and> (44 \<notin> set loc \<longrightarrow> split 44 loc = [loc])"
proof -
  have "extract_state unknown = unknown" by (simp add: extract_state_def)
  moreover have "extract_state loc = states ! i"
    if "loc \<noteq> unknown" "i < length states" "contains (lower loc) (lower (states ! i))"
       "\<forall>j<i. \<not> contains (lower loc) (lower (states ! j))"
  proof -
    have "find_state loc = Some (states ! i)"
      unfolding find_state_def using that(2-4) by (simp only: find_Some_iff) blast
    with that(1) show ?thesis by (simp add: extract_state_def)
  qed
  moreover have "extract_state loc = strip (last (split 44 loc))"
    if "loc \<noteq> unknown" "\<forall>st\<in>set states. \<not> contains (lower loc) (lower st)"
  proof -
    have "find_state loc = None"
      unfolding find_state_def using that(2) by (simp only: find_None_iff) blast
    with that(1) show ?thesis
      by (simp add: extract_state_def Let_def split_def split_acc_nonempty)
  qed
  moreover note last_split [of 44 loc]
  moreover have "split 44 loc \<noteq> []" by (simp add: split_def split_acc_nonempty)
  moreover have "44 \<notin> set loc \<longrightarrow> split 44 loc = [loc]"
    by (simp add: split_def split_acc_no_occurrence)
  ultimately show ?thesis by blast
qed

text \<open>
  Two states in one text: \<^verbatim>\<open>New Delhi, gujarat\<close> gives Gujarat, which is listed before
  Delhi. A region that is not listed: \<^verbatim>\<open>Pune, Goa\<close> gives Goa.
\<close>

theorem extract_state_rule_witness:
  "extract_state delhi_gujarat = ascii ''Gujarat'' \<and> extract_state pune_goa = ascii ''Goa''"
proof -
  have a1: "delhi_gujarat \<noteq> unknown" by (simp add: delhi_gujarat_def text_defs)
  have a2: "(1::nat) < length states" by (simp add: states_def)
  have a3: "contains (lower delhi_gujarat) (lower (states ! 1))"
    by (simp add: delhi_gujarat_def states_def text_defs)
  have a4: "\<forall>j<1. \<not> contains (lower delhi_gujarat) (lower (states ! j))"
    by (simp add: delhi_gujarat_def states_def text_defs)
  have a5: "states ! 1 = ascii ''Gujarat''" by (simp add: states_def)
  have b1: "pune_goa \<noteq> unknown" by (simp add: pune_goa_def text_defs)
  have b2: "\<forall>st\<in>set states. \<not> contains (lower pune_goa) (lower st)"
    by (simp add: pune_goa_def states_def text_defs)
  have b3: "strip (last (split 44 pune_goa)) = ascii ''Goa''"
    by (simp add: pune_goa_def split_def text_defs)
  have "extract_state delhi_gujarat = ascii ''Gujarat''"
    using extract_state_rule [of delhi_gujarat 1] a1 a2 a3 a4 a5 by simp
  moreover have "extract_state pune_goa = ascii ''Goa''"
    using extract_state_rule [of pune_goa 0] b1 b2 b3 by simp
  ultimately show ?thesis by simp
qed

text \<open>
  A location without a comma and without a listed state is returned stripped, not
  replaced by \<^verbatim>\<open>Unknown\<close>: \<^verbatim>\<open>Mumbai\<close> gives \<^verbatim>\<open>Mumbai\<close>, and the empty text gives
  the empty text.
\<close>

lemma find_state_mumbai: "find_state mumbai = None"
  by (simp add: find_state_def mumbai_def states_def text_defs)

theorem extract_state_no_comma_counterexample:
  "44 \<notin> set mumbai \<and> mumbai \<noteq> unknown \<and> find_state mumbai = None
   \<and> extract_state mumbai = mumbai \<and> extract_state mumbai \<noteq> unknown
   \<and> extract_state [] = [] \<and> extract_state [] \<noteq> unknown"
proof -
  have a: "44 \<notin> set mumbai \<and> mumbai \<noteq> unknown" by (simp add: mumbai_def text_defs)
  have b: "strip (last (split 44 mumbai)) = mumbai"
    by (simp add: mumbai_def split_def text_defs)
  have c: "find_state [] = None" by (simp add: find_state_def states_def text_defs)
  have d: "[] \<noteq> unknown" by (simp add: text_defs)
  have "extract_state mumbai = mumbai"
    using a b by (simp add: extract_state_def find_state_mumbai Let_def split_def split_acc_nonempty)
  moreover have "extract_state [] = []"
    using c d by (simp add: extract_state_def Let_def split_def strip_def)
  ultimately show ?thesis using a d find_state_mumbai by simp
qed

section \<open>Properties of the record extractor\<close>

text \<open>
  The loop and the rule of the specification agree: whatever the count, the set of seen
  names and the list of products are when the loop starts, the names it appends are the
  plausible names of the remaining links, each at its first occurrence and not seen
  before, up to the room the cap leaves.
\<close>

lemma first_occurrences_set: "set (first_occurrences seen xs) = set xs - seen"
  by (induction xs arbitrary: seen) auto

lemma first_occurrences_distinct: "distinct (first_occurrences seen xs)"
  by (induction xs arbitrary: seen) (auto simp: first_occurrences_set)

lemma make_product_name: "name (make_product now cat source_name link nm) = Some nm"
  by (simp add: make_product_def)

lemma extract_loop_spec:
  "extract_loop clk cat source_name m links c seen ps = (c', ps') \<Longrightarrow>
   \<exists>new. ps' = ps @ new \<and> c' = c + int (length new)
     \<and> map name new =
         map Some (take (nat (m - c))
           (first_occurrences seen (filter spec_plausible_name (map link_name links))))"
proof (induction links arbitrary: c seen ps)
  case Nil
  then show ?case by simp
next
  case (Cons link links)
  let ?nm = "link_name link"
  let ?rest = "filter spec_plausible_name (map link_name links)"
  show ?case
  proof (cases "c \<ge> m")
    case True
    with Cons.prems have "ps' = ps @ []" "c' = c + int (length ([] :: raw_record list))" by simp_all
    moreover from True have "nat (m - c) = 0" by simp
    ultimately show ?thesis by (intro exI [of _ "[]"]) simp
  next
    case False
    show ?thesis
    proof (cases "?nm \<noteq> [] \<and> 10 < length ?nm \<and> length ?nm < 200 \<and> ?nm \<notin> seen")
      case cond: True
      show ?thesis
      proof (cases "is_navigation ?nm")
        case True
        with cond False Cons.prems
        have "extract_loop clk cat source_name m links c seen ps = (c', ps')"
          by (simp add: Let_def)
        from Cons.IH [OF this] obtain new where new: "ps' = ps @ new" "c' = c + int (length new)"
          "map name new = map Some (take (nat (m - c)) (first_occurrences seen ?rest))"
          by blast
        from True have "\<not> spec_plausible_name ?nm"
          by (simp add: spec_plausible_name_def is_navigation_def)
        with new show ?thesis by auto
      next
        case nav: False
        let ?p = "make_product (clk (length ps)) cat source_name link ?nm"
        from cond nav False Cons.prems
        have "extract_loop clk cat source_name m links (c + 1) (insert ?nm seen) (ps @ [?p])
              = (c', ps')"
          by (simp add: Let_def)
        from Cons.IH [OF this] obtain new where new: "ps' = (ps @ [?p]) @ new"
          "c' = c + 1 + int (length new)"
          "map name new = map Some (take (nat (m - (c + 1)))
             (first_occurrences (insert ?nm seen) ?rest))"
          by blast
        from cond nav have pl: "spec_plausible_name ?nm"
          by (simp add: spec_plausible_name_def is_navigation_def)
        from False have "nat (m - c) = Suc (nat (m - (c + 1)))" by simp
        with pl cond new(3)
        have "map name (?p # new) = map Some (take (nat (m - c))
           (first_occurrences seen (filter spec_plausible_name (map link_name (link # links)))))"
          by (simp add: make_product_name)
        moreover from new have "ps' = ps @ (?p # new)" "c' = c + int (length (?p # new))"
          by simp_all
        ultimately show ?thesis by blast
      qed
    next
      case ncond: False
      with False Cons.prems
      have "extract_loop clk cat source_name m links c seen ps = (c', ps')"
        by (simp add: Let_def)
      from Cons.IH [OF this] obtain new where new: "ps' = ps @ new" "c' = c + int (length new)"
        "map name new = map Some (take (nat (m - c)) (first_occurrences seen ?rest))"
        by blast
      have "first_occurrences seen (filter spec_plausible_name (map link_name (link # links)))
            = first_occurrences seen ?rest"
      proof (cases "spec_plausible_name ?nm")
        case True
        with ncond have "?nm \<in> seen" by (auto simp: spec_plausible_name_def)
        with True show ?thesis by simp
      next
        case False
        then show ?thesis by simp
      qed
      with new show ?thesis by auto
    qed
  qed
qed


lemma extract_products_spec:
  assumes "extract_products w links cat source_name m s = (c, s')"
  shows "\<exists>new. products s' = products s @ new \<and> c = int (length new)
     \<and> requests s' = requests s \<and> map name new = map Some (spec_survivors m links)"
proof -
  obtain c0 ps where l: "extract_loop (clock w) cat source_name m links 0 {} (products s) = (c0, ps)"
    by (cases "extract_loop (clock w) cat source_name m links 0 {} (products s)")
  with assms have cs: "c = c0" "s' = s\<lparr>products := ps\<rparr>"
    by (simp_all add: extract_products_def)
  from extract_loop_spec [OF l] obtain new where "ps = products s @ new" "c0 = int (length new)"
    "map name new = map Some (spec_survivors m links)"
    by (auto simp: spec_survivors_def)
  with cs show ?thesis by simp
qed

lemma emitted_append: "products s' = products s @ new \<Longrightarrow> emitted s s' = new"
  by (simp add: emitted_def)

lemma spec_survivors_plausible:
  "nm \<in> set (spec_survivors m links) \<Longrightarrow> spec_plausible_name nm \<and> nm \<in> link_name ` set links"
proof -
  assume "nm \<in> set (spec_survivors m links)"
  then have "nm \<in> set (first_occurrences {} (filter spec_plausible_name (map link_name links)))"
    unfolding spec_survivors_def by (rule in_set_takeD)
  then show ?thesis by (auto simp: first_occurrences_set)
qed

lemma spec_survivors_distinct: "distinct (spec_survivors m links)"
  by (simp add: spec_survivors_def first_occurrences_distinct)

text \<open>
  C5. A call of the record extractor appends its records behind the products it found
  and returns their number, which is at most the cap. The names of the appended records
  are, in document order, the names the specification lets through: each is the name of
  a link of the document (its title, or its text when the title is missing or empty),
  has between 11 and 199 characters, contains none of the navigation words when
  lower-cased, and occurs once among the names of the call.
\<close>

theorem extract_products_rule:
  assumes "extract_products w links cat source_name max_results s = (count, s')"
  shows "products s' = products s @ emitted s s'
     \<and> count = int (length (emitted s s'))
     \<and> length (emitted s s') \<le> nat max_results
     \<and> (0 \<le> max_results \<longrightarrow> count \<le> max_results)
     \<and> map name (emitted s s') = map Some (spec_survivors max_results links)
     \<and> distinct (map name (emitted s s'))
     \<and> (\<forall>r\<in>set (emitted s s'). \<exists>l\<in>set links.
           name r = Some (link_name l) \<and> 11 \<le> length (link_name l) \<and> length (link_name l) \<le> 199
           \<and> (\<forall>w\<in>set noise_words. \<not> contains (lower (link_name l)) w))"
proof -
  from extract_products_spec [OF assms] obtain new where new: "products s' = products s @ new"
    "count = int (length new)" "map name new = map Some (spec_survivors max_results links)"
    by blast
  from new(1) have e: "emitted s s' = new" by (rule emitted_append)
  from new(3) have len: "length new = length (spec_survivors max_results links)"
    by (metis length_map)
  have "length (spec_survivors max_results links) \<le> nat max_results"
    by (simp add: spec_survivors_def)
  with len have cap: "length new \<le> nat max_results" by simp
  have dist: "distinct (map name new)"
    unfolding new(3) by (simp add: distinct_map spec_survivors_distinct)
  have names: "\<exists>l\<in>set links.
           name r = Some (link_name l) \<and> 11 \<le> length (link_name l) \<and> length (link_name l) \<le> 199
           \<and> (\<forall>w\<in>set noise_words. \<not> contains (lower (link_name l)) w)"
    if "r \<in> set new" for r
  proof -
    from that have "name r \<in> set (map name new)" by simp
    then have "name r \<in> Some ` set (spec_survivors max_results links)" by (simp add: new(3))
    then obtain nm where nm: "name r = Some nm" "nm \<in> set (spec_survivors max_results links)"
      by auto
    from spec_survivors_plausible [OF nm(2)] obtain l where "l \<in> set links" "nm = link_name l"
      "spec_plausible_name (link_name l)" by auto
    with nm(1) show ?thesis by (auto simp: spec_plausible_name_def list_ex_iff)
  qed
  from new e cap dist names show ?thesis by auto
qed

text \<open>
  The sample page with the cap 2: \<^verbatim>\<open>Home\<close> and \<^verbatim>\<open>Contact Us Page Link\<close> are left out,
  the helmet and the name of 50 characters are kept, and the cap stops the loop before
  the second helmet and the valve.
\<close>

lemma sample_page_survivors:
  "spec_survivors 2 sample_page = [ascii ''Industrial Safety Helmet'', press_name]"
  by (simp add: spec_survivors_def sample_page_def link_home_def link_contact_def
      sample_link_def link_press_def link_valve_def link_name_def spec_plausible_name_def
      noise_words_def press_name_def text_defs)

theorem extract_products_rule_witness:
  "fst (extract_products sample_world sample_page (ascii ''safety equipment'')
          (ascii ''TradeIndia'') 2 fresh_scraper) = 2
   \<and> map name (emitted fresh_scraper
         (snd (extract_products sample_world sample_page (ascii ''safety equipment'')
                 (ascii ''TradeIndia'') 2 fresh_scraper)))
       = [Some (ascii ''Industrial Safety Helmet''), Some press_name]
   \<and> length press_name = 50"
proof -
  let ?X = "extract_products sample_world sample_page (ascii ''safety equipment'')
              (ascii ''TradeIndia'') 2 fresh_scraper"
  have h: "?X = (fst ?X, snd ?X)" by simp
  from extract_products_rule [OF h]
  have n: "map name (emitted fresh_scraper (snd ?X)) = map Some (spec_survivors 2 sample_page)"
    and c: "fst ?X = int (length (emitted fresh_scraper (snd ?X)))"
    by blast+
  from n have "length (emitted fresh_scraper (snd ?X)) = length (spec_survivors 2 sample_page)"
    by (metis length_map)
  with c have "fst ?X = 2" by (simp add: sample_page_survivors)
  moreover have "length press_name = 50" by (simp add: press_name_def ascii_def)
  ultimately show ?thesis using n by (simp add: sample_page_survivors)
qed

section \<open>Properties of the aggregator\<close>

lemma extract_products_grows:
  "\<exists>new. products (snd (extract_products w links cat source_name m s)) = products s @ new
     \<and> fst (extract_products w links cat source_name m s) = int (length new)"
proof -
  have "extract_products w links cat source_name m s
        = (fst (extract_products w links cat source_name m s),
           snd (extract_products w links cat source_name m s))"
    by simp
  from extract_products_spec [OF this] show ?thesis by blast
qed

lemma scrape_source_grows:
  "\<exists>new. products (snd (scrape_source w k cat m s)) = products s @ new
     \<and> fst (scrape_source w k cat m s) = int (length new)"
proof (cases "map_of sources k")
  case None
  then show ?thesis by (simp add: scrape_source_def)
next
  case (Some src)
  let ?s1 = "s\<lparr>requests := requests s + 1\<rparr>"
  show ?thesis
  proof (cases "respond w (requests s) (search_url src cat)")
    case Raised
    with Some show ?thesis by (simp add: scrape_source_def)
  next
    case (Response code doc)
    show ?thesis
    proof (cases "code = 200")
      case False
      with Some Response show ?thesis by (simp add: scrape_source_def)
    next
      case True
      show ?thesis
      proof (cases doc)
        case Unparsable
        with Some Response True show ?thesis by (simp add: scrape_source_def)
      next
        case (Page links)
        with Some Response True
        have "scrape_source w k cat m s = extract_products w links cat (display_name src) m ?s1"
          by (simp add: scrape_source_def)
        with extract_products_grows [of w links cat "display_name src" m ?s1]
        show ?thesis by simp
      qed
    qed
  qed
qed

lemma scrape_loop_total:
  "scrape_loop w cat m keys tot s =
     (tot + sum_list (source_counts w cat m keys s), snd (scrape_loop w cat m keys 0 s))"
proof (induction keys arbitrary: tot s)
  case Nil
  then show ?case by simp
next
  case (Cons k keys)
  obtain c s1 where step: "scrape_source w k cat m s = (c, s1)"
    by (cases "scrape_source w k cat m s")
  have "scrape_loop w cat m (k # keys) tot s = scrape_loop w cat m keys (tot + c) s1"
    using step by simp
  also have "\<dots> = (tot + c + sum_list (source_counts w cat m keys s1),
                     snd (scrape_loop w cat m keys 0 s1))"
    by (rule Cons.IH)
  also have "snd (scrape_loop w cat m keys 0 s1) = snd (scrape_loop w cat m (k # keys) 0 s)"
    using step Cons.IH [of "0 + c" s1] by simp
  finally show ?case using step by simp
qed

lemma source_counts_length: "length (source_counts w cat m keys s) = length keys"
  by (induction keys arbitrary: s) (simp_all split: prod.split)

lemma scrape_loop_fst:
  "fst (scrape_loop w cat m keys tot s) = tot + sum_list (source_counts w cat m keys s)"
  by (metis fst_conv scrape_loop_total)

lemma scrape_loop_snd:
  "snd (scrape_loop w cat m keys tot s) = snd (scrape_loop w cat m keys 0 s)"
  by (metis snd_conv scrape_loop_total)

lemma scrape_category_step:
  "scrape_category w cat (k # keys) m s =
     (fst (scrape_source w k cat m s)
        + fst (scrape_category w cat keys m (snd (scrape_source w k cat m s))),
      snd (scrape_category w cat keys m (snd (scrape_source w k cat m s))))"
proof -
  obtain c s1 where step: "scrape_source w k cat m s = (c, s1)"
    by (cases "scrape_source w k cat m s")
  have eq: "scrape_category w cat (k # keys) m s = scrape_loop w cat m keys (0 + c) s1"
    using step by (simp add: scrape_category_def)
  have "fst (scrape_category w cat (k # keys) m s) = c + fst (scrape_category w cat keys m s1)"
    unfolding eq by (simp add: scrape_category_def scrape_loop_fst)
  moreover have "snd (scrape_category w cat (k # keys) m s) = snd (scrape_category w cat keys m s1)"
    unfolding eq using scrape_loop_snd [of w cat m keys "0 + c" s1]
    by (simp add: scrape_category_def)
  ultimately show ?thesis using step by (simp add: prod_eq_iff)
qed

lemma scrape_category_grows:
  "\<exists>new. products (snd (scrape_category w cat keys m s)) = products s @ new
     \<and> fst (scrape_category w cat keys m s) = int (length new)"
proof (induction keys arbitrary: s)
  case Nil
  then show ?case by (simp add: scrape_category_def)
next
  case (Cons k keys)
  let ?s1 = "snd (scrape_source w k cat m s)"
  from scrape_source_grows [of w k cat m s] obtain new1 where
    n1: "products ?s1 = products s @ new1" "fst (scrape_source w k cat m s) = int (length new1)"
    by blast
  from Cons.IH [of ?s1] obtain new2 where
    n2: "products (snd (scrape_category w cat keys m ?s1)) = products ?s1 @ new2"
        "fst (scrape_category w cat keys m ?s1) = int (length new2)"
    by blast
  have "products (snd (scrape_category w cat (k # keys) m s)) = products s @ (new1 @ new2)"
    using n1 n2 by (simp add: scrape_category_step)
  moreover have "fst (scrape_category w cat (k # keys) m s) = int (length (new1 @ new2))"
    using n1 n2 by (simp add: scrape_category_step)
  ultimately show ?case by blast
qed

text \<open>
  C9. \<^verbatim>\<open>scrape_category\<close> calls \<^verbatim>\<open>scrape_source\<close> once for every source key, in the
  order of the list, and returns the sum of the counts; the products it appends are as
  many as the total, behind the products found before. Whatever the first source
  returns, the remaining sources are processed from the state it leaves. A source
  contributes nothing and leaves the products as they are when its key is not
  registered (no request is made), when the request or the parser raises, and when the
  status is not 200; when the page is fetched and parsed, the count is that of the one
  call of the record extractor on it.
\<close>

theorem scrape_category_isolation:
  "fst (scrape_category w cat keys m s) = sum_list (source_counts w cat m keys s)
   \<and> length (source_counts w cat m keys s) = length keys
   \<and> products (snd (scrape_category w cat keys m s))
       = products s @ emitted s (snd (scrape_category w cat keys m s))
   \<and> fst (scrape_category w cat keys m s)
       = int (length (emitted s (snd (scrape_category w cat keys m s))))
   \<and> scrape_category w cat (k # keys) m s =
       (fst (scrape_source w k cat m s)
          + fst (scrape_category w cat keys m (snd (scrape_source w k cat m s))),
        snd (scrape_category w cat keys m (snd (scrape_source w k cat m s))))
   \<and> (map_of sources k = None \<longrightarrow> scrape_source w k cat m s = (0, s))
   \<and> (map_of sources k = Some src \<and> respond w (requests s) (search_url src cat) = Raised
        \<longrightarrow> scrape_source w k cat m s = (0, s\<lparr>requests := requests s + 1\<rparr>))
   \<and> (map_of sources k = Some src
        \<and> respond w (requests s) (search_url src cat) = Response code doc
        \<and> (code \<noteq> 200 \<or> doc = Unparsable)
        \<longrightarrow> scrape_source w k cat m s = (0, s\<lparr>requests := requests s + 1\<rparr>))
   \<and> (map_of sources k = Some src
        \<and> respond w (requests s) (search_url src cat) = Response 200 (Page links)
        \<longrightarrow> scrape_source w k cat m s =
              extract_products w links cat (display_name src) m (s\<lparr>requests := requests s + 1\<rparr>))"
proof -
  have "fst (scrape_category w cat keys m s) = sum_list (source_counts w cat m keys s)"
    by (simp add: scrape_category_def scrape_loop_fst)
  moreover note source_counts_length [of w cat m keys s]
  moreover from scrape_category_grows [of w cat keys m s] obtain new where
    new: "products (snd (scrape_category w cat keys m s)) = products s @ new"
         "fst (scrape_category w cat keys m s) = int (length new)"
    by blast
  from new(1) have e: "emitted s (snd (scrape_category w cat keys m s)) = new"
    by (rule emitted_append)
  have "products (snd (scrape_category w cat keys m s))
       = products s @ emitted s (snd (scrape_category w cat keys m s))"
    using new(1) e by simp
  moreover have "fst (scrape_category w cat keys m s)
       = int (length (emitted s (snd (scrape_category w cat keys m s))))"
    using new(2) e by simp
  moreover note scrape_category_step [of w cat k keys m s]
  moreover have "map_of sources k = None \<longrightarrow> scrape_source w k cat m s = (0, s)"
    by (simp add: scrape_source_def)
  moreover have "map_of sources k = Some src
        \<and> respond w (requests s) (search_url src cat) = Raised
        \<longrightarrow> scrape_source w k cat m s = (0, s\<lparr>requests := requests s + 1\<rparr>)"
    by (simp add: scrape_source_def)
  moreover have "map_of sources k = Some src
        \<and> respond w (requests s) (search_url src cat) = Response code doc
        \<and> (code \<noteq> 200 \<or> doc = Unparsable)
        \<longrightarrow> scrape_source w k cat m s = (0, s\<lparr>requests := requests s + 1\<rparr>)"
    by (auto simp: scrape_source_def Let_def)
  moreover have "map_of sources k = Some src
        \<and> respond w (requests s) (search_url src cat) = Response 200 (Page links)
        \<longrightarrow> scrape_source w k cat m s =
              extract_products w links cat (display_name src) m (s\<lparr>requests := requests s + 1\<rparr>)"
    by (simp add: scrape_source_def)
  ultimately show ?thesis by blast
qed

text \<open>
  The sample session with the cap 2: the first source gives two records, the second
  raises, the third key is not registered, the fourth is refused, the fifth gives one
  record. The total is 3.
\<close>

lemma sample_source_counts:
  "source_counts sample_world (ascii ''safety equipment'') 2 sample_keys fresh_scraper
   = [2, 0, 0, 0, 1]"
  by (simp add: sample_keys_def fresh_scraper_def scrape_source_def sources_def search_url_def
      sample_world_def extract_products_def sample_page_def link_home_def link_contact_def
      sample_link_def link_press_def link_valve_def link_name_def is_navigation_def
      noise_words_def press_name_def text_defs Let_def)

theorem scrape_category_isolation_witness:
  "fst (scrape_category sample_world (ascii ''safety equipment'') sample_keys 2 fresh_scraper) = 3
   \<and> source_counts sample_world (ascii ''safety equipment'') 2 sample_keys fresh_scraper
       = [2, 0, 0, 0, 1]
   \<and> length (products (snd (scrape_category sample_world (ascii ''safety equipment'')
         sample_keys 2 fresh_scraper))) = 3"
proof -
  let ?cat = "ascii ''safety equipment''"
  let ?R = "scrape_category sample_world ?cat sample_keys 2 fresh_scraper"
  note t = scrape_category_isolation [of sample_world ?cat sample_keys 2 fresh_scraper]
  from t have "fst ?R = sum_list (source_counts sample_world ?cat 2 sample_keys fresh_scraper)"
    by blast
  then have total: "fst ?R = 3" by (simp add: sample_source_counts)
  from t have "products (snd ?R) = products fresh_scraper @ emitted fresh_scraper (snd ?R)"
    and "fst ?R = int (length (emitted fresh_scraper (snd ?R)))"
    by blast+
  with total have "length (products (snd ?R)) = 3" by (simp add: fresh_scraper_def)
  with total show ?thesis by (simp add: sample_source_counts)
qed

end
